theory Spec2Isabelle
  imports Main
begin

section \<open>Text and character classes\<close>

text \<open>
  Source text is a list of 8-bit characters (code points 0 to 255). The classes below
  are the ones Python's \<^verbatim>\<open>re\<close> and \<^verbatim>\<open>str\<close> use on \<^verbatim>\<open>str\<close> values, written out for
  these code points: \<^verbatim>\<open>\s\<close> and \<^verbatim>\<open>str.strip()\<close> use \<^verbatim>\<open>str.isspace\<close>, \<^verbatim>\<open>\w\<close> is
  alphanumeric or underscore in the Unicode sense, the bracket ranges are ASCII.
\<close>

definition is_space :: "char \<Rightarrow> bool" where
  "is_space c = (let n = (of_char c :: nat) in
     (9 \<le> n \<and> n \<le> 13) \<or> (28 \<le> n \<and> n \<le> 32) \<or> n = 133 \<or> n = 160)"

definition is_digit :: "char \<Rightarrow> bool" where
  "is_digit c = (let n = (of_char c :: nat) in 48 \<le> n \<and> n \<le> 57)"

definition is_alpha_us :: "char \<Rightarrow> bool" where
  "is_alpha_us c = (let n = (of_char c :: nat) in
     (65 \<le> n \<and> n \<le> 90) \<or> (97 \<le> n \<and> n \<le> 122) \<or> n = 95)"

definition is_alnum_us :: "char \<Rightarrow> bool" where
  "is_alnum_us c = (is_alpha_us c \<or> is_digit c)"

definition is_word :: "char \<Rightarrow> bool" where
  "is_word c = (let n = (of_char c :: nat) in
     is_alnum_us c \<or> n = 170 \<or> n = 178 \<or> n = 179 \<or> n = 181 \<or> n = 185 \<or> n = 186
     \<or> (188 \<le> n \<and> n \<le> 190) \<or> (192 \<le> n \<and> n \<le> 214) \<or> (216 \<le> n \<and> n \<le> 246)
     \<or> 248 \<le> n)"

definition is_linebreak :: "char \<Rightarrow> bool" where
  "is_linebreak c = (let n = (of_char c :: nat) in
     (10 \<le> n \<and> n \<le> 13) \<or> (28 \<le> n \<and> n \<le> 30) \<or> n = 133)"

datatype cclass =
    Lit char            \<comment> \<open>a literal character\<close>
  | Space               \<comment> \<open>\<^verbatim>\<open>\s\<close>\<close>
  | Word                \<comment> \<open>\<^verbatim>\<open>\w\<close>\<close>
  | Digit               \<comment> \<open>\<^verbatim>\<open>[0-9]\<close>\<close>
  | AlphaUs             \<comment> \<open>\<^verbatim>\<open>[A-Za-z_]\<close>\<close>
  | AlnumUs             \<comment> \<open>\<^verbatim>\<open>[A-Za-z0-9_]\<close>\<close>
  | OneOf string        \<comment> \<open>\<^verbatim>\<open>[...]\<close>\<close>
  | NoneOf string       \<comment> \<open>\<^verbatim>\<open>[^...]\<close>\<close>
  | Dot                 \<comment> \<open>\<^verbatim>\<open>.\<close> without DOTALL\<close>
  | DotAll              \<comment> \<open>\<^verbatim>\<open>.\<close> with DOTALL\<close>

fun cc_ok :: "cclass \<Rightarrow> char \<Rightarrow> bool" where
  "cc_ok (Lit a) c = (c = a)"
| "cc_ok Space c = is_space c"
| "cc_ok Word c = is_word c"
| "cc_ok Digit c = is_digit c"
| "cc_ok AlphaUs c = is_alpha_us c"
| "cc_ok AlnumUs c = is_alnum_us c"
| "cc_ok (OneOf s) c = (c \<in> set s)"
| "cc_ok (NoneOf s) c = (c \<notin> set s)"
| "cc_ok Dot c = (c \<noteq> CHR 0x0A)"
| "cc_ok DotAll c = True"

section \<open>A backtracking matcher for the patterns of the source\<close>

text \<open>
  The patterns of \<^verbatim>\<open>converter.py\<close> repeat single characters only, so repetition is over a
  character class. A match state is the character before the position (\<open>None\<close> at the
  start of the text), the text still to read, and the groups captured so far, latest
  first. \<open>rmatch r s\<close> lists every way \<open>r\<close> can match from \<open>s\<close> in the order a backtracking
  matcher tries them; Python takes the first.
\<close>

datatype rx =
    Eps
  | Ch cclass
  | Str string               \<comment> \<open>a run of literal characters\<close>
  | Cat rx rx
  | Alt rx rx
  | Star cclass              \<comment> \<open>greedy \<^verbatim>\<open>*\<close>\<close>
  | Plus cclass              \<comment> \<open>greedy \<^verbatim>\<open>+\<close>\<close>
  | LazyStar cclass          \<comment> \<open>\<^verbatim>\<open>*?\<close>\<close>
  | Opt rx                   \<comment> \<open>greedy \<^verbatim>\<open>?\<close>\<close>
  | Grp nat rx               \<comment> \<open>capturing group\<close>
  | Bref nat                 \<comment> \<open>backreference\<close>
  | Bos                      \<comment> \<open>\<^verbatim>\<open>^\<close> without MULTILINE\<close>
  | BolM                     \<comment> \<open>\<^verbatim>\<open>^\<close> with MULTILINE\<close>
  | EolM                     \<comment> \<open>\<^verbatim>\<open>$\<close> with MULTILINE\<close>
  | WordB                    \<comment> \<open>\<^verbatim>\<open>\b\<close>\<close>
  | NotAhead rx              \<comment> \<open>\<^verbatim>\<open>(?!...)\<close>\<close>

type_synonym groups = "(nat \<times> string) list"
type_synonym mstate = "char option \<times> string \<times> groups"

fun last_opt :: "char option \<Rightarrow> string \<Rightarrow> char option" where
  "last_opt p [] = p"
| "last_opt p (x # xs) = last_opt (Some x) xs"

fun strip_prefix :: "string \<Rightarrow> string \<Rightarrow> string option" where
  "strip_prefix [] ys = Some ys"
| "strip_prefix (x # xs) [] = None"
| "strip_prefix (x # xs) (y # ys) = (if x = y then strip_prefix xs ys else None)"

fun greedy_star :: "cclass \<Rightarrow> mstate \<Rightarrow> mstate list" where
  "greedy_star c (p, [], g) = [(p, [], g)]"
| "greedy_star c (p, x # xs, g) =
     (if cc_ok c x then greedy_star c (Some x, xs, g) else []) @ [(p, x # xs, g)]"

fun lazy_star :: "cclass \<Rightarrow> mstate \<Rightarrow> mstate list" where
  "lazy_star c (p, [], g) = [(p, [], g)]"
| "lazy_star c (p, x # xs, g) =
     (p, x # xs, g) # (if cc_ok c x then lazy_star c (Some x, xs, g) else [])"

definition word_opt :: "char option \<Rightarrow> bool" where
  "word_opt p = (case p of None \<Rightarrow> False | Some c \<Rightarrow> is_word c)"

definition next_opt :: "string \<Rightarrow> char option" where
  "next_opt xs = (case xs of [] \<Rightarrow> None | x # _ \<Rightarrow> Some x)"

fun rmatch :: "rx \<Rightarrow> mstate \<Rightarrow> mstate list" where
  "rmatch Eps s = [s]"
| "rmatch (Ch c) (p, xs, g) =
     (case xs of [] \<Rightarrow> [] | x # xs' \<Rightarrow> if cc_ok c x then [(Some x, xs', g)] else [])"
| "rmatch (Str w) (p, xs, g) =
     (case strip_prefix w xs of None \<Rightarrow> [] | Some xs' \<Rightarrow> [(last_opt p w, xs', g)])"
| "rmatch (Cat a b) s = concat (map (rmatch b) (rmatch a s))"
| "rmatch (Alt a b) s = rmatch a s @ rmatch b s"
| "rmatch (Star c) s = greedy_star c s"
| "rmatch (Plus c) (p, xs, g) =
     (case xs of [] \<Rightarrow> [] | x # xs' \<Rightarrow> if cc_ok c x then greedy_star c (Some x, xs', g) else [])"
| "rmatch (LazyStar c) s = lazy_star c s"
| "rmatch (Opt a) s = rmatch a s @ [s]"
| "rmatch (Grp n a) (p, xs, g) =
     map (\<lambda>(p', xs', g'). (p', xs', (n, take (length xs - length xs') xs) # g'))
       (rmatch a (p, xs, g))"
| "rmatch (Bref n) (p, xs, g) =
     (case map_of g n of None \<Rightarrow> []
      | Some w \<Rightarrow> (case strip_prefix w xs of None \<Rightarrow> [] | Some xs' \<Rightarrow> [(last_opt p w, xs', g)]))"
| "rmatch Bos (p, xs, g) = (if p = None then [(p, xs, g)] else [])"
| "rmatch BolM (p, xs, g) = (if p = None \<or> p = Some (CHR 0x0A) then [(p, xs, g)] else [])"
| "rmatch EolM (p, xs, g) =
     (if next_opt xs = None \<or> next_opt xs = Some (CHR 0x0A) then [(p, xs, g)] else [])"
| "rmatch WordB (p, xs, g) =
     (if word_opt p \<noteq> word_opt (next_opt xs) then [(p, xs, g)] else [])"
| "rmatch (NotAhead a) s = (if rmatch a s = [] then [s] else [])"

text \<open>Concatenation of a list of patterns.\<close>

fun cats :: "rx list \<Rightarrow> rx" where
  "cats [] = Eps"
| "cats [r] = r"
| "cats (r # rs) = Cat r (cats rs)"

subsection \<open>Match objects, search, sub, finditer, split\<close>

text \<open>
  A match object: the matched text (\<^verbatim>\<open>group(0)\<close>) and the captured groups.
  \<^verbatim>\<open>m.group(k)\<close> is \<open>None\<close> for a group that took no part in the match.
\<close>

type_synonym mobj = "string \<times> groups"

definition group :: "mobj \<Rightarrow> nat \<Rightarrow> string option" where
  "group m k = (if k = 0 then Some (fst m) else map_of (snd m) k)"

text \<open>\<^verbatim>\<open>re.match\<close>: the first way to match at the start of the text.\<close>

definition re_match :: "rx \<Rightarrow> string \<Rightarrow> mobj option" where
  "re_match r xs =
     (case rmatch r (None, xs, []) of [] \<Rightarrow> None
      | (p', xs', g') # _ \<Rightarrow> Some (take (length xs - length xs') xs, g'))"

text \<open>\<^verbatim>\<open>re.fullmatch\<close>: the first way to match that reaches the end of the text.\<close>

definition re_fullmatch :: "rx \<Rightarrow> string \<Rightarrow> mobj option" where
  "re_fullmatch r xs =
     (case filter (\<lambda>(p', xs', g'). xs' = []) (rmatch r (None, xs, [])) of [] \<Rightarrow> None
      | (p', xs', g') # _ \<Rightarrow> Some (xs, g'))"

text \<open>
  The scan shared by \<^verbatim>\<open>search\<close>, \<^verbatim>\<open>sub\<close>, \<^verbatim>\<open>finditer\<close>, \<^verbatim>\<open>findall\<close> and \<^verbatim>\<open>split\<close>: the
  text cut into the characters no match covers and the successive non-overlapping
  matches, left to right. After an empty match the next match at the same position must
  be non-empty (the flag \<open>adv\<close>).
\<close>

datatype seg = Txt char | Mat mobj

function scan :: "rx \<Rightarrow> bool \<Rightarrow> char option \<Rightarrow> string \<Rightarrow> seg list" where
  "scan r adv p xs =
     (case filter (\<lambda>(p', xs', g'). if adv then length xs' < length xs else True) (rmatch r (p, xs, [])) of
        [] \<Rightarrow> (case xs of [] \<Rightarrow> [] | x # xs' \<Rightarrow> Txt x # scan r False (Some x) xs')
      | (p', xs', g') # _ \<Rightarrow>
          (let n = length xs - length xs' in
           if n = 0 then
             \<comment> \<open>when \<open>adv\<close> holds the filter has left no empty match\<close>
             (if adv then [] else Mat ([], g') # scan r True p xs)
           else Mat (take n xs, g') # scan r False (last_opt p (take n xs)) (drop n xs)))"
  by pat_completeness auto
termination
  by (relation "measure (\<lambda>(r, adv, p, xs). 2 * length xs + (if adv then 0 else 1))") auto

declare scan.simps [simp del]

definition finditer :: "rx \<Rightarrow> string \<Rightarrow> mobj list" where
  "finditer r xs = concat (map (\<lambda>s. case s of Txt c \<Rightarrow> [] | Mat m \<Rightarrow> [m]) (scan r False None xs))"

definition re_search :: "rx \<Rightarrow> string \<Rightarrow> mobj option" where
  "re_search r xs = (case finditer r xs of [] \<Rightarrow> None | m # _ \<Rightarrow> Some m)"


text \<open>\<^verbatim>\<open>re.findall\<close> for a pattern with one group: the group's text, empty if it took no part.\<close>

definition tgroup :: "mobj \<Rightarrow> nat \<Rightarrow> string" where
  "tgroup m k = (case group m k of None \<Rightarrow> [] | Some w \<Rightarrow> w)"

definition findall1 :: "rx \<Rightarrow> string \<Rightarrow> string list" where
  "findall1 r xs = map (\<lambda>m. tgroup m 1) (finditer r xs)"

text \<open>
  \<^verbatim>\<open>re.sub\<close> with a template: a group reference to a group that took no part gives
  the empty string (\<open>tgroup\<close>), so a template cannot fail.
\<close>

fun tmpl_segs :: "(mobj \<Rightarrow> string) \<Rightarrow> seg list \<Rightarrow> string" where
  "tmpl_segs f [] = []"
| "tmpl_segs f (Txt c # ss) = c # tmpl_segs f ss"
| "tmpl_segs f (Mat m # ss) = f m @ tmpl_segs f ss"

definition sub_tmpl :: "rx \<Rightarrow> (mobj \<Rightarrow> string) \<Rightarrow> string \<Rightarrow> string" where
  "sub_tmpl r f xs = tmpl_segs f (scan r False None xs)"

text \<open>
  \<^verbatim>\<open>re.sub\<close> with a function: the function is called on each match from left to right;
  an exception it raises ends the call. The functions of the allocation pass also update
  a dictionary, threaded here as the state \<open>st\<close>.
\<close>

datatype py_error = TypeError | AttributeError

fun sub_segs :: "(mobj \<Rightarrow> 'st \<Rightarrow> py_error + string \<times> 'st) \<Rightarrow> seg list \<Rightarrow> 'st
    \<Rightarrow> py_error + string \<times> 'st" where
  "sub_segs f [] st = Inr ([], st)"
| "sub_segs f (Txt c # ss) st =
     (case sub_segs f ss st of Inl e \<Rightarrow> Inl e | Inr (out, st') \<Rightarrow> Inr (c # out, st'))"
| "sub_segs f (Mat m # ss) st =
     (case f m st of Inl e \<Rightarrow> Inl e
      | Inr (rep, st1) \<Rightarrow>
          (case sub_segs f ss st1 of Inl e \<Rightarrow> Inl e | Inr (out, st') \<Rightarrow> Inr (rep @ out, st')))"

definition sub_st :: "rx \<Rightarrow> (mobj \<Rightarrow> 'st \<Rightarrow> py_error + string \<times> 'st) \<Rightarrow> string \<Rightarrow> 'st
    \<Rightarrow> py_error + string \<times> 'st" where
  "sub_st r f xs st = sub_segs f (scan r False None xs) st"

definition sub_fn :: "rx \<Rightarrow> (mobj \<Rightarrow> py_error + string) \<Rightarrow> string \<Rightarrow> py_error + string" where
  "sub_fn r f xs =
     (case sub_st r (\<lambda>m (u::unit). case f m of Inl e \<Rightarrow> Inl e | Inr s \<Rightarrow> Inr (s, u)) xs () of
        Inl e \<Rightarrow> Inl e | Inr (out, u) \<Rightarrow> Inr out)"

text \<open>
  \<^verbatim>\<open>re.split\<close>: the pieces between the matches; for a pattern with groups, each match
  also contributes its groups \<open>1..ng\<close> (\<open>None\<close> for a group that took no part).
\<close>

fun split_segs :: "nat \<Rightarrow> seg list \<Rightarrow> string \<Rightarrow> string option list" where
  "split_segs ng [] cur = [Some cur]"
| "split_segs ng (Txt c # ss) cur = split_segs ng ss (cur @ [c])"
| "split_segs ng (Mat m # ss) cur = Some cur # map (group m) [1..<Suc ng] @ split_segs ng ss []"

definition re_split :: "nat \<Rightarrow> rx \<Rightarrow> string \<Rightarrow> string option list" where
  "re_split ng r xs = split_segs ng (scan r False None xs) []"

fun split0_segs :: "seg list \<Rightarrow> string \<Rightarrow> string list" where
  "split0_segs [] cur = [cur]"
| "split0_segs (Txt c # ss) cur = split0_segs ss (cur @ [c])"
| "split0_segs (Mat m # ss) cur = cur # split0_segs ss []"

definition re_split0 :: "rx \<Rightarrow> string \<Rightarrow> string list" where
  "re_split0 r xs = split0_segs (scan r False None xs) []"

section \<open>String methods\<close>

definition strip :: "string \<Rightarrow> string" where
  "strip s = rev (dropWhile is_space (rev (dropWhile is_space s)))"

definition lstrip :: "string \<Rightarrow> string" where
  "lstrip s = dropWhile is_space s"

definition strip_chr :: "char \<Rightarrow> string \<Rightarrow> string" where
  "strip_chr a s = rev (dropWhile (\<lambda>c. c = a) (rev (dropWhile (\<lambda>c. c = a) s)))"

definition lstrip_chr :: "char \<Rightarrow> string \<Rightarrow> string" where
  "lstrip_chr a s = dropWhile (\<lambda>c. c = a) s"

definition startswith :: "string \<Rightarrow> string \<Rightarrow> bool" where
  "startswith s w = (strip_prefix w s \<noteq> None)"

definition endswith :: "string \<Rightarrow> string \<Rightarrow> bool" where
  "endswith s w = (strip_prefix (rev w) (rev s) \<noteq> None)"

text \<open>\<^verbatim>\<open>s.replace(a, b)\<close> for a one-character \<open>a\<close>.\<close>

definition replace_chr :: "char \<Rightarrow> string \<Rightarrow> string \<Rightarrow> string" where
  "replace_chr a b s = concat (map (\<lambda>c. if c = a then b else [c]) s)"

fun split_chr_aux :: "char \<Rightarrow> string \<Rightarrow> string \<Rightarrow> string list" where
  "split_chr_aux a cur [] = [cur]"
| "split_chr_aux a cur (c # cs) =
     (if c = a then cur # split_chr_aux a [] cs else split_chr_aux a (cur @ [c]) cs)"

definition split_chr :: "char \<Rightarrow> string \<Rightarrow> string list" where
  "split_chr a s = split_chr_aux a [] s"

fun join :: "string \<Rightarrow> string list \<Rightarrow> string" where
  "join sep [] = []"
| "join sep [x] = x"
| "join sep (x # y # ys) = x @ sep @ join sep (y # ys)"

fun splitlines_aux :: "string \<Rightarrow> string \<Rightarrow> string list" where
  "splitlines_aux cur [] = (if cur = [] then [] else [cur])"
| "splitlines_aux cur [c] = (if is_linebreak c then [cur] else [cur @ [c]])"
| "splitlines_aux cur (c # d # cs) =
     (if c = CHR 0x0D \<and> d = CHR 0x0A then cur # splitlines_aux [] cs
      else if is_linebreak c then cur # splitlines_aux [] (d # cs)
      else splitlines_aux (cur @ [c]) (d # cs))"

definition splitlines :: "string \<Rightarrow> string list" where
  "splitlines s = splitlines_aux [] s"

text \<open>The double quote and the backslash, for writing source text.\<close>

abbreviation DQ :: string where "DQ \<equiv> [CHR 0x22]"

text \<open>An f-string field holding a value that may be \<open>None\<close>.\<close>

definition py_str :: "string option \<Rightarrow> string" where
  "py_str v = (case v of None \<Rightarrow> ''None'' | Some s \<Rightarrow> s)"

text \<open>Truth of a value that may be \<open>None\<close>: a non-empty string.\<close>

definition truthy :: "string option \<Rightarrow> bool" where
  "truthy v = (case v of None \<Rightarrow> False | Some s \<Rightarrow> s \<noteq> [])"


section \<open>The patterns of converter.py\<close>

abbreviation ws :: rx where "ws \<equiv> Star Space"
abbreviation ws1 :: rx where "ws1 \<equiv> Plus Space"

text \<open>\<^verbatim>\<open>[A-Za-z_][A-Za-z0-9_]*\<close> and \<^verbatim>\<open>[A-Za-z_]\w*\<close>\<close>

definition ident :: rx where
  "ident = Cat (Ch AlphaUs) (Star AlnumUs)"

definition identw :: rx where
  "identw = Cat (Ch AlphaUs) (Star Word)"

text \<open>\<^verbatim>\<open>(?:struct\s+)?\<close>\<close>

definition opt_struct :: rx where
  "opt_struct = Opt (Cat (Str ''struct'') ws1)"

text \<open>\<^verbatim>\<open>^\s*#\s*include\s*<stdio\.h>\s*$\<close> and \<^verbatim>\<open>^\s*#\s*include\s*<iostream>\s*$\<close>, MULTILINE\<close>

definition include_stdio :: rx where
  "include_stdio = cats [BolM, ws, Str ''#'', ws, Str ''include'', ws, Str ''<stdio.h>'', ws, EolM]"

definition include_iostream :: rx where
  "include_iostream =
     cats [BolM, ws, Str ''#'', ws, Str ''include'', ws, Str ''<iostream>'', ws, EolM]"

section \<open>Declaration and typedef index\<close>

text \<open>
  A Python dictionary is an association list with the latest entry first, read with
  \<open>map_of\<close>. A key or value taken from \<^verbatim>\<open>m.group(k)\<close> may be \<open>None\<close>.
\<close>

text \<open>
  \<^verbatim>\<open>typedef\s+struct\s+([A-Za-z_]\w*)\s+([A-Za-z_]\w*)\s*;\<close>,
  \<^verbatim>\<open>typedef\s+struct\s+([A-Za-z_]\w*)\s*\{[^}]*\}\s*([A-Za-z_]\w*)\s*;\<close>,
  \<^verbatim>\<open>typedef\s+((?:struct\s+)?[A-Za-z_]\w*)\s+([A-Za-z_]\w*)\s*;\<close>
\<close>

definition typedef_struct_re :: rx where
  "typedef_struct_re = cats [Str ''typedef'', ws1, Str ''struct'', ws1, Grp 1 identw, ws1,
     Grp 2 identw, ws, Str '';'']"

definition typedef_struct_body_re :: rx where
  "typedef_struct_body_re = cats [Str ''typedef'', ws1, Str ''struct'', ws1, Grp 1 identw, ws,
     Str ''{'', Star (NoneOf ''}''), Str ''}'', ws, Grp 2 identw, ws, Str '';'']"

definition typedef_base_re :: rx where
  "typedef_base_re = cats [Str ''typedef'', ws1, Grp 1 (Cat opt_struct identw), ws1,
     Grp 2 identw, ws, Str '';'']"

type_synonym typedefs = "(string option \<times> string option) list"

definition collect_typedefs :: "string \<Rightarrow> typedefs" where
  "collect_typedefs code =
     (let tdefs = [];
          tdefs = foldl (\<lambda>d m. (group m 2, Some (''struct '' @ py_str (group m 1))) # d) tdefs
                    (finditer typedef_struct_re code);
          tdefs = foldl (\<lambda>d m. (group m 2, Some (''struct '' @ py_str (group m 1))) # d) tdefs
                    (finditer typedef_struct_body_re code)
      in foldl (\<lambda>d m. if map_of d (group m 2) = None then (group m 2, group m 1) # d else d)
           tdefs (finditer typedef_base_re code))"

text \<open>
  \<^verbatim>\<open>struct\s+([A-Za-z_]\w*)\s*\{\<close> and, MULTILINE,
  \<^verbatim>\<open>^(?P<type>(?:struct\s+)?[A-Za-z_]\w*)\s+(?P<rest>[^;]+);\<close> (type is group 1, rest group 2)
\<close>

definition struct_name_re :: rx where
  "struct_name_re = cats [Str ''struct'', ws1, Grp 1 identw, ws, Str ''{'']"

definition decl_re :: rx where
  "decl_re = cats [BolM, Grp 1 (Cat opt_struct identw), ws1, Grp 2 (Plus (NoneOf '';'')), Str '';'']"

text \<open>The variable types: name to C type, pointer stars included.\<close>

type_synonym pytypes = "(string option \<times> string) list"

text \<open>\<^verbatim>\<open>while q.startswith("*"): stars += 1; q = q[1:].lstrip()\<close>\<close>

function strip_stars :: "string \<Rightarrow> nat \<times> string" where
  "strip_stars q =
     (case q of [] \<Rightarrow> (0, q)
      | c # q' \<Rightarrow> if c = CHR ''*'' then (case strip_stars (lstrip q') of (n, r) \<Rightarrow> (Suc n, r))
                 else (0, q))"
  by pat_completeness auto
termination
  by (relation "measure length") (auto simp: lstrip_def intro: le_imp_less_Suc length_dropWhile_le)

declare strip_stars.simps [simp del]

fun fold_err :: "('a \<Rightarrow> 'b \<Rightarrow> py_error + 'a) \<Rightarrow> 'a \<Rightarrow> 'b list \<Rightarrow> py_error + 'a" where
  "fold_err f a [] = Inr a"
| "fold_err f a (x # xs) = (case f a x of Inl e \<Rightarrow> Inl e | Inr a' \<Rightarrow> fold_err f a' xs)"

text \<open>The body of the loop over the declarators of one declaration.\<close>

definition decl_part :: "typedefs \<Rightarrow> string option \<Rightarrow> pytypes \<Rightarrow> string \<Rightarrow> py_error + pytypes" where
  "decl_part typedefs t types p =
     (case strip_stars p of (stars, q) \<Rightarrow>
        (case re_match (Grp 1 ident) q of
           None \<Rightarrow> Inr types
         | Some name_match \<Rightarrow>
             (let name = group name_match 1;
                  base = (case map_of typedefs t of None \<Rightarrow> t | Some b \<Rightarrow> b)
              in case base of None \<Rightarrow> Inl TypeError
                 | Some b \<Rightarrow> Inr ((name, b @ replicate stars (CHR ''*'')) # types))))"

text \<open>The body of the loop over the matches of \<open>decl_re\<close>.\<close>

definition decl_match :: "typedefs \<Rightarrow> string option set \<Rightarrow> pytypes \<Rightarrow> mobj \<Rightarrow> py_error + pytypes" where
  "decl_match typedefs base_types types m =
     (let t = group m 1;
          declarators = (case group m 2 of None \<Rightarrow> Inl AttributeError
             | Some rest \<Rightarrow> fold_err (decl_part typedefs t) types (map strip (split_chr (CHR '','') rest)))
      in if t \<notin> base_types then
           (if map_of typedefs t \<noteq> None then declarators
            else case t of None \<Rightarrow> Inl AttributeError
                 | Some ts \<Rightarrow> if startswith ts ''struct '' then declarators else Inr types)
         else declarators)"

definition infer_decl_types :: "string \<Rightarrow> py_error + pytypes" where
  "infer_decl_types code =
     (let typedefs = collect_typedefs code;
          struct_names = set (findall1 struct_name_re code);
          base_types = Some ` ({''int'', ''long'', ''float'', ''double'', ''char''}
                         \<union> (\<lambda>s. ''struct '' @ s) ` struct_names) \<union> fst ` set typedefs
      in fold_err (decl_match typedefs base_types) [] (finditer decl_re code))"


section \<open>Format specifiers and expression types\<close>

definition fmt_for_type :: "string \<Rightarrow> string" where
  "fmt_for_type ctype =
     (let base = replace_chr (CHR ''*'') [] ctype in
      case map_of [(''int'', ''%d''), (''long'', ''%ld''), (''float'', ''%f''),
                   (''double'', ''%lf''), (''char'', ''%c''), (''char*'', ''%s'')] ctype of
        Some f \<Rightarrow> f
      | None \<Rightarrow>
          (case map_of [(''int'', ''%d''), (''long'', ''%ld''), (''float'', ''%f''),
                        (''double'', ''%lf''), (''char'', ''%c'')] base of
             Some f \<Rightarrow> f | None \<Rightarrow> ''%d''))"

text \<open>
  \<^verbatim>\<open>\*\s*\(?\s*([A-Za-z_][A-Za-z0-9_]*)\s*\)?\<close> and \<^verbatim>\<open>([A-Za-z_][A-Za-z0-9_]*)\s*\[.+\]\<close>
\<close>

definition deref_re :: rx where
  "deref_re = cats [Str ''*'', ws, Opt (Str ''(''), ws, Grp 1 ident, ws, Opt (Str '')'')]"

definition index_re :: rx where
  "index_re = cats [Grp 1 ident, ws, Str ''['', Plus Dot, Str '']'']"

text \<open>\<^verbatim>\<open>if t and t.endswith("*"): return t[:-1]\<close>, else \<open>None\<close>\<close>

definition pointee :: "string option \<Rightarrow> string option" where
  "pointee t = (case t of None \<Rightarrow> None
     | Some ts \<Rightarrow> if ts \<noteq> [] \<and> endswith ts ''*'' then Some (butlast ts) else None)"

definition expr_ctype :: "string \<Rightarrow> pytypes \<Rightarrow> string option" where
  "expr_ctype expr0 types =
     (let expr = strip expr0 in
      case re_fullmatch ident expr of
        Some m \<Rightarrow> map_of types (Some expr)
      | None \<Rightarrow>
          (case re_fullmatch deref_re expr of
             Some m \<Rightarrow> pointee (map_of types (group m 1))
           | None \<Rightarrow>
               (case re_fullmatch index_re expr of
                  Some m \<Rightarrow> pointee (map_of types (group m 1))
                | None \<Rightarrow> None)))"

section \<open>printf and scanf to streams\<close>

text \<open>
  The loop of \<^verbatim>\<open>_split_printf_args\<close>: \<open>parts\<close>, \<open>buf\<close>, the open quote \<open>q\<close> and the
  parenthesis \<open>depth\<close> are the loop's variables.
\<close>

fun split_args_loop :: "string list \<Rightarrow> string \<Rightarrow> char option \<Rightarrow> nat \<Rightarrow> string \<Rightarrow> string list" where
  "split_args_loop parts buf q depth [] = (if buf \<noteq> [] then parts @ [strip buf] else parts)"
| "split_args_loop parts buf q depth (ch # rest) =
     (if ch = CHR 0x22 \<or> ch = CHR 0x27 then
        split_args_loop parts (buf @ [ch])
          (if q = None then Some ch else if q = Some ch then None else q) depth rest
      else if ch = CHR ''('' \<and> q = None then split_args_loop parts (buf @ [ch]) q (depth + 1) rest
      else if ch = CHR '')'' \<and> q = None \<and> depth > 0 then
        split_args_loop parts (buf @ [ch]) q (depth - 1) rest
      else if ch = CHR '','' \<and> q = None \<and> depth = 0 then
        split_args_loop (parts @ [strip buf]) [] q depth rest
      else split_args_loop parts (buf @ [ch]) q depth rest)"

definition split_printf_args :: "string \<Rightarrow> string list" where
  "split_printf_args args = split_args_loop [] [] None 0 args"

text \<open>
  \<^verbatim>\<open>printf\s*\((.*)\)\s*;\s*\<close> and \<^verbatim>\<open>scanf\s*\((.*)\)\s*;\s*\<close> with DOTALL;
  \<^verbatim>\<open>(%[0-9]*\.?[0-9]*[dlfcsg])\<close>
\<close>

definition printf_call_re :: rx where
  "printf_call_re = cats [Str ''printf'', ws, Str ''('', Grp 1 (Star DotAll), Str '')'', ws,
     Str '';'', ws]"

definition scanf_call_re :: rx where
  "scanf_call_re = cats [Str ''scanf'', ws, Str ''('', Grp 1 (Star DotAll), Str '')'', ws,
     Str '';'', ws]"

definition spec_re :: rx where
  "spec_re = Grp 1 (cats [Str ''%'', Star Digit, Opt (Str ''.''), Star Digit, Ch (OneOf ''dlfcsg'')])"

text \<open>\<^verbatim>\<open>tok.replace("\\", "\\\\").replace("\"", "\\\"")\<close>\<close>

definition escape_literal :: "string \<Rightarrow> string" where
  "escape_literal tok =
     replace_chr (CHR 0x22) [CHR 0x5C, CHR 0x22] (replace_chr (CHR 0x5C) [CHR 0x5C, CHR 0x5C] tok)"

text \<open>
  The loop over the tokens: the state is \<open>out\<close>, what is left of \<open>var_iter\<close>, and
  \<open>newline\<close>. A token is an element of \<^verbatim>\<open>re.split\<close>'s result.
\<close>

fun cout_tokens :: "string option list \<Rightarrow> string \<Rightarrow> string list \<Rightarrow> bool
    \<Rightarrow> py_error + string \<times> bool" where
  "cout_tokens [] out vars newline = Inr (out, newline)"
| "cout_tokens (None # toks) out vars newline = Inl AttributeError"
| "cout_tokens (Some tok # toks) out vars newline =
     (if tok = [] then cout_tokens toks out vars newline
      else if startswith tok ''%'' then
        (case vars of
           [] \<Rightarrow> cout_tokens toks (out @ '' << '' @ [CHR 0x22] @ tok @ [CHR 0x22]) [] newline
         | v # vars' \<Rightarrow> cout_tokens toks (out @ '' << ('' @ v @ '')'') vars' newline)
      else
        (let nl = endswith tok [CHR 0x5C, CHR ''n''];
             tok' = (if nl then take (length tok - 2) tok else tok);
             out' = (if tok' \<noteq> [] then out @ '' << '' @ [CHR 0x22] @ escape_literal tok' @ [CHR 0x22]
                     else out)
         in cout_tokens toks out' vars (nl \<or> newline)))"

text \<open>
  \<^verbatim>\<open>_convert_printf_to_cout\<close> and \<^verbatim>\<open>_convert_scanf_to_cin\<close>. The source also computes
  \<^verbatim>\<open>specs = re.findall(...)\<close> in both and never reads it; the scanf function never reads
  \<open>types\<close>.
\<close>

definition convert_printf_to_cout :: "string \<Rightarrow> py_error + string" where
  "convert_printf_to_cout call =
     (case re_match printf_call_re call of
        None \<Rightarrow> Inr call
      | Some m \<Rightarrow>
          (case group m 1 of
             None \<Rightarrow> Inl TypeError
           | Some a \<Rightarrow>
               (case split_printf_args a of
                  [] \<Rightarrow> Inr call
                | fmt # vars \<Rightarrow>
                    if \<not> (startswith fmt [CHR 0x22] \<or> startswith fmt [CHR 0x27]) then Inr call
                    else
                      (let fmt_str = strip_chr (CHR 0x22) (strip fmt);
                           tokens = re_split 1 spec_re fmt_str
                       in case cout_tokens tokens ''std::cout'' vars False of
                            Inl e \<Rightarrow> Inl e
                          | Inr (out, newline) \<Rightarrow>
                              Inr ((if newline then out @ '' << std::endl'' else out) @ '';'')))))"

definition convert_scanf_to_cin :: "string \<Rightarrow> pytypes \<Rightarrow> py_error + string" where
  "convert_scanf_to_cin call types =
     (case re_match scanf_call_re call of
        None \<Rightarrow> Inr call
      | Some m \<Rightarrow>
          (case group m 1 of
             None \<Rightarrow> Inl TypeError
           | Some a \<Rightarrow>
               (case split_printf_args a of
                  [] \<Rightarrow> Inr call
                | fmt # rest \<Rightarrow>
                    if \<not> (startswith fmt [CHR 0x22] \<or> startswith fmt [CHR 0x27]) then Inr call
                    else
                      (let vars = map (\<lambda>a. strip (lstrip_chr (CHR ''&'') a)) rest
                       in Inr (''std::cin'' @ concat (map (\<lambda>v. '' >> ('' @ v @ '')'') vars)
                               @ '';'')))))"


section \<open>new and delete to malloc and free\<close>

text \<open>
  \<^verbatim>\<open>new\s+([A-Za-z_][A-Za-z0-9_]*)\s*\[\s*([^\]]+)\s*\]\<close>,
  \<^verbatim>\<open>new\s+([A-Za-z_][A-Za-z0-9_]*)\b(?!\s*\[)\<close>,
  \<^verbatim>\<open>delete\s*\[\s*\]\s*([A-Za-z_][A-Za-z0-9_]*)\s*;\<close>,
  \<^verbatim>\<open>delete\s+([A-Za-z_][A-Za-z0-9_]*)\s*;\<close>
\<close>

definition new_array_re :: rx where
  "new_array_re = cats [Str ''new'', ws1, Grp 1 ident, ws, Str ''['', ws,
     Grp 2 (Plus (NoneOf '']'')), ws, Str '']'']"

definition new_scalar_re :: rx where
  "new_scalar_re = cats [Str ''new'', ws1, Grp 1 ident, WordB, NotAhead (Cat ws (Str ''[''))]"

definition delete_array_re :: rx where
  "delete_array_re = cats [Str ''delete'', ws, Str ''['', ws, Str '']'', ws, Grp 1 ident, ws, Str '';'']"

definition delete_re :: rx where
  "delete_re = cats [Str ''delete'', ws1, Grp 1 ident, ws, Str '';'']"

definition convert_new_delete_to_malloc_free :: "string \<Rightarrow> string" where
  "convert_new_delete_to_malloc_free code0 =
     (let code = sub_tmpl new_array_re
            (\<lambda>m. ''('' @ tgroup m 1 @ ''*)malloc(sizeof('' @ tgroup m 1 @ '') * ('' @ tgroup m 2 @ ''))'')
            code0;
          code = sub_tmpl new_scalar_re
            (\<lambda>m. ''('' @ tgroup m 1 @ ''*)malloc(sizeof('' @ tgroup m 1 @ ''))'') code;
          code = sub_tmpl delete_array_re (\<lambda>m. ''free('' @ tgroup m 1 @ '');'') code
      in sub_tmpl delete_re (\<lambda>m. ''free('' @ tgroup m 1 @ '');'') code)"

section \<open>malloc and free to new and delete\<close>

datatype alloc_kind = Array | Scalar

type_synonym allocs = "(string option \<times> alloc_kind) list"

text \<open>\<^verbatim>\<open>realloc\s*\(\s*([A-Za-z_][A-Za-z0-9_]*)\s*,\<close>\<close>

definition realloc_re :: rx where
  "realloc_re = cats [Str ''realloc'', ws, Str ''('', ws, Grp 1 ident, ws, Str '','']"

text \<open>
  The shared start \<^verbatim>\<open>([A-Za-z_][A-Za-z0-9_]*)\s*=\s*\<close>, the cast
  \<^verbatim>\<open>\(\s*(?:struct\s+)?([A-Za-z_][A-Za-z0-9_]*)\s*\*\s*\)\s*\<close> with the type as group 2, and
  \<^verbatim>\<open>sizeof\(\s*(?:struct\s+)?\k\s*\)\<close> for a backreference \<open>k\<close>.
\<close>

definition assign_to :: "rx" where
  "assign_to = cats [Grp 1 ident, ws, Str ''='', ws]"

definition cast_to :: "rx" where
  "cast_to = cats [Str ''('', ws, opt_struct, Grp 2 ident, ws, Str ''*'', ws, Str '')'', ws]"

definition sizeof_of :: "nat \<Rightarrow> rx" where
  "sizeof_of k = cats [Str ''sizeof('', ws, opt_struct, Bref k, ws, Str '')'']"

definition malloc_array_re :: rx where
  "malloc_array_re = cats [assign_to, cast_to, Str ''malloc'', ws, Str ''('', ws, sizeof_of 2, ws,
     Str ''*'', ws, Grp 3 (Plus (NoneOf '')'')), Str '')'', ws, Str '';'']"

definition malloc_scalar_re :: rx where
  "malloc_scalar_re = cats [assign_to, cast_to, Str ''malloc'', ws, Str ''('', ws, sizeof_of 2, ws,
     Str '')'', ws, Str '';'']"

text \<open>
  \<^verbatim>\<open>...=\s*(?:\(\s*(?:struct\s+)?(T)\s*\*\s*\)\s*)?malloc\s*\(\s*sizeof\s*\(\s*\*\s*\1\s*\)\s*(?:\*\s*([^\)]+))?\)\s*;\<close>
\<close>

definition malloc_sizeof_ptr_re :: rx where
  "malloc_sizeof_ptr_re = cats [assign_to, Opt cast_to, Str ''malloc'', ws, Str ''('', ws,
     Str ''sizeof'', ws, Str ''('', ws, Str ''*'', ws, Bref 1, ws, Str '')'', ws,
     Opt (cats [Str ''*'', ws, Grp 3 (Plus (NoneOf '')''))]), Str '')'', ws, Str '';'']"

text \<open>
  \<^verbatim>\<open>(?:^|;)\s*(?:struct\s+)?(T)\s*\*\s*(name)\s*=\s*malloc\s*\(\s*sizeof\(\s*(?:struct\s+)?\1\s*\)\<close>
  followed by \<^verbatim>\<open>\s*\*\s*([^\)]+)\)\s*;\<close> or by \<^verbatim>\<open>\s*\)\s*;\<close>
\<close>

definition lhs_type_start :: rx where
  "lhs_type_start = cats [Alt Bos (Str '';''), ws, opt_struct, Grp 1 ident, ws, Str ''*'', ws,
     Grp 2 ident, ws, Str ''='', ws, Str ''malloc'', ws, Str ''('', ws, sizeof_of 1]"

definition lhs_type_array_re :: rx where
  "lhs_type_array_re = cats [lhs_type_start, ws, Str ''*'', ws, Grp 3 (Plus (NoneOf '')'')),
     Str '')'', ws, Str '';'']"

definition lhs_type_scalar_re :: rx where
  "lhs_type_scalar_re = cats [lhs_type_start, ws, Str '')'', ws, Str '';'']"

text \<open>
  \<^verbatim>\<open>...=\s*\(...(T)...\)\s*calloc\s*\(\s*([^,]+)\s*,\s*sizeof\(\s*(?:struct\s+)?\2\s*\)\s*\)\s*;\<close> and
  \<^verbatim>\<open>(name)\s*=\s*calloc\s*\(\s*([^,]+)\s*,\s*sizeof\(\s*\*\s*\1\s*\)\s*\)\s*;\<close>
\<close>

definition calloc_cast_re :: rx where
  "calloc_cast_re = cats [assign_to, cast_to, Str ''calloc'', ws, Str ''('', ws,
     Grp 3 (Plus (NoneOf '','')), ws, Str '','', ws, sizeof_of 2, ws, Str '')'', ws, Str '';'']"

definition calloc_sizeof_ptr_re :: rx where
  "calloc_sizeof_ptr_re = cats [assign_to, Str ''calloc'', ws, Str ''('', ws,
     Grp 2 (Plus (NoneOf '','')), ws, Str '','', ws, Str ''sizeof('', ws, Str ''*'', ws, Bref 1, ws,
     Str '')'', ws, Str '')'', ws, Str '';'']"

text \<open>\<^verbatim>\<open>free\s*\(\s*([A-Za-z_][A-Za-z0-9_]*)\s*\)\s*;\<close>\<close>

definition free_re :: rx where
  "free_re = cats [Str ''free'', ws, Str ''('', ws, Grp 1 ident, ws, Str '')'', ws, Str '';'']"


text \<open>
  The replacement functions. Each takes the match and the dictionary \<open>allocs\<close> and gives
  the replacement text and the updated dictionary. \<open>names\<close> is \<open>realloc_names\<close>.
\<close>

definition in_names :: "string option \<Rightarrow> string set \<Rightarrow> bool" where
  "in_names name names = (case name of None \<Rightarrow> False | Some s \<Rightarrow> s \<in> names)"

definition new_array_text :: "string option \<Rightarrow> string option \<Rightarrow> string option \<Rightarrow> string" where
  "new_array_text name T n = py_str name @ '' = new '' @ py_str T @ ''['' @ py_str n @ ''];''"

definition new_scalar_text :: "string option \<Rightarrow> string option \<Rightarrow> string" where
  "new_scalar_text name T = py_str name @ '' = new '' @ py_str T @ '';''"

definition repl_array :: "string set \<Rightarrow> mobj \<Rightarrow> allocs \<Rightarrow> py_error + string \<times> allocs" where
  "repl_array names m allocs =
     (let name = group m 1; T = group m 2; n = group m 3 in
      if in_names name names then Inr (fst m, allocs)
      else Inr (new_array_text name T n, (name, Array) # allocs))"

definition repl_scalar :: "string set \<Rightarrow> mobj \<Rightarrow> allocs \<Rightarrow> py_error + string \<times> allocs" where
  "repl_scalar names m allocs =
     (let name = group m 1; T = group m 2 in
      if in_names name names then Inr (fst m, allocs)
      else Inr (new_scalar_text name T, (name, Scalar) # allocs))"

definition repl_sizeof_ptr :: "pytypes \<Rightarrow> string set \<Rightarrow> mobj \<Rightarrow> allocs
    \<Rightarrow> py_error + string \<times> allocs" where
  "repl_sizeof_ptr types names m allocs =
     (let name = group m 1; T = group m 2; n = group m 3 in
      if in_names name names then Inr (fst m, allocs)
      else
        (let T = (if \<not> truthy T then
                    (case map_of types name of
                       None \<Rightarrow> T
                     | Some decl \<Rightarrow>
                         if decl \<noteq> [] then Some (replace_chr (CHR '' '') [] (replace_chr (CHR ''*'') [] decl))
                         else T)
                  else T);
             T = (if \<not> truthy T then Some ''int'' else T)
         in if truthy n then Inr (new_array_text name T n, (name, Array) # allocs)
            else Inr (new_scalar_text name T, (name, Scalar) # allocs)))"

definition repl_lhs_type_array :: "string set \<Rightarrow> mobj \<Rightarrow> allocs \<Rightarrow> py_error + string \<times> allocs" where
  "repl_lhs_type_array names m allocs =
     (let T = group m 1; name = group m 2; n = group m 3 in
      if in_names name names then Inr (fst m, allocs)
      else Inr (py_str T @ ''* '' @ new_array_text name T n, (name, Array) # allocs))"

definition repl_lhs_type_scalar :: "string set \<Rightarrow> mobj \<Rightarrow> allocs \<Rightarrow> py_error + string \<times> allocs" where
  "repl_lhs_type_scalar names m allocs =
     (let T = group m 1; name = group m 2 in
      if in_names name names then Inr (fst m, allocs)
      else Inr (py_str T @ ''* '' @ new_scalar_text name T, (name, Scalar) # allocs))"

definition repl_calloc_cast :: "string set \<Rightarrow> mobj \<Rightarrow> allocs \<Rightarrow> py_error + string \<times> allocs" where
  "repl_calloc_cast names m allocs =
     (let name = group m 1; T = group m 2; n = group m 3 in
      if in_names name names then Inr (fst m, allocs)
      else case n of
             None \<Rightarrow> Inl AttributeError
           | Some ns \<Rightarrow>
               if strip ns = ''1'' then Inr (new_scalar_text name T, (name, Scalar) # allocs)
               else Inr (new_array_text name T n, (name, Array) # allocs))"

definition repl_calloc_sizeof_ptr :: "pytypes \<Rightarrow> string set \<Rightarrow> mobj \<Rightarrow> allocs
    \<Rightarrow> py_error + string \<times> allocs" where
  "repl_calloc_sizeof_ptr types names m allocs =
     (let name = group m 1; n = group m 2 in
      if in_names name names then Inr (fst m, allocs)
      else
        (let decl = (case map_of types name of None \<Rightarrow> ''int'' | Some d \<Rightarrow> d);
             T0 = replace_chr (CHR '' '') [] (replace_chr (CHR ''*'') [] decl);
             T = Some (if T0 = [] then ''int'' else T0)
         in case n of
              None \<Rightarrow> Inl AttributeError
            | Some ns \<Rightarrow>
                if strip ns = ''1'' then Inr (new_scalar_text name T, (name, Scalar) # allocs)
                else Inr (new_array_text name T n, (name, Array) # allocs)))"

definition repl_free :: "mobj \<Rightarrow> allocs \<Rightarrow> py_error + string \<times> allocs" where
  "repl_free m allocs =
     (let name = group m 1; kind = map_of allocs name in
      if kind = Some Array then Inr (''delete[] '' @ py_str name @ '';'', allocs)
      else Inr (''delete '' @ py_str name @ '';'', allocs))"

text \<open>The passes in the order of the source; an exception in a pass ends the function.\<close>

fun passes :: "(rx \<times> (mobj \<Rightarrow> allocs \<Rightarrow> py_error + string \<times> allocs)) list \<Rightarrow> string \<Rightarrow> allocs
    \<Rightarrow> py_error + string \<times> allocs" where
  "passes [] code allocs = Inr (code, allocs)"
| "passes ((r, f) # ps) code allocs =
     (case sub_st r f code allocs of Inl e \<Rightarrow> Inl e | Inr (code', allocs') \<Rightarrow> passes ps code' allocs')"

definition convert_malloc_free_to_new_delete :: "string \<Rightarrow> pytypes \<Rightarrow> py_error + string" where
  "convert_malloc_free_to_new_delete code types =
     (let realloc_names = set (findall1 realloc_re code) in
      case passes
             [(malloc_array_re, repl_array realloc_names),
              (malloc_scalar_re, repl_scalar realloc_names),
              (malloc_sizeof_ptr_re, repl_sizeof_ptr types realloc_names),
              (lhs_type_array_re, repl_lhs_type_array realloc_names),
              (lhs_type_scalar_re, repl_lhs_type_scalar realloc_names),
              (calloc_cast_re, repl_calloc_cast realloc_names),
              (calloc_sizeof_ptr_re, repl_calloc_sizeof_ptr types realloc_names),
              (free_re, repl_free)]
             code [] of
        Inl e \<Rightarrow> Inl e
      | Inr (code', allocs) \<Rightarrow> Inr code')"

section \<open>The two translation functions\<close>

text \<open>
  \<^verbatim>\<open>printf\s*\(.*?\)\s*;\<close>, \<^verbatim>\<open>scanf\s*\(.*?\)\s*;\<close>,
  \<^verbatim>\<open>\bstruct\s+([A-Za-z_][A-Za-z0-9_]*)\s*\*\<close>, \<^verbatim>\<open>\bNULL\b\<close>
\<close>

definition printf_stmt_re :: rx where
  "printf_stmt_re = cats [Str ''printf'', ws, Str ''('', LazyStar Dot, Str '')'', ws, Str '';'']"

definition scanf_stmt_re :: rx where
  "scanf_stmt_re = cats [Str ''scanf'', ws, Str ''('', LazyStar Dot, Str '')'', ws, Str '';'']"

definition struct_ptr_re :: rx where
  "struct_ptr_re = cats [WordB, Str ''struct'', ws1, Grp 1 ident, ws, Str ''*'']"

definition word_re :: "string \<Rightarrow> rx" where
  "word_re w = cats [WordB, Str w, WordB]"

text \<open>The body of the loop over the lines.\<close>

definition convert_line :: "pytypes \<Rightarrow> string \<Rightarrow> py_error + string" where
  "convert_line types ln =
     (case sub_fn printf_stmt_re (\<lambda>m. convert_printf_to_cout (fst m)) ln of
        Inl e \<Rightarrow> Inl e
      | Inr l \<Rightarrow> sub_fn scanf_stmt_re (\<lambda>m. convert_scanf_to_cin (fst m) types) l)"

fun map_err :: "('a \<Rightarrow> py_error + 'b) \<Rightarrow> 'a list \<Rightarrow> py_error + 'b list" where
  "map_err f [] = Inr []"
| "map_err f (x # xs) =
     (case f x of Inl e \<Rightarrow> Inl e
      | Inr y \<Rightarrow> (case map_err f xs of Inl e \<Rightarrow> Inl e | Inr ys \<Rightarrow> Inr (y # ys)))"

definition convert_c_to_cpp :: "string \<Rightarrow> py_error + string" where
  "convert_c_to_cpp code0 =
     (let code = (if re_search include_stdio code0 \<noteq> None
                  then sub_tmpl include_stdio (\<lambda>m. ''#include <iostream>'') code0 else code0)
      in case infer_decl_types code of
           Inl e \<Rightarrow> Inl e
         | Inr types \<Rightarrow>
             (case map_err (convert_line types) (splitlines code) of
                Inl e \<Rightarrow> Inl e
              | Inr out_lines \<Rightarrow>
                  (case convert_malloc_free_to_new_delete (join [CHR 0x0A] out_lines) types of
                     Inl e \<Rightarrow> Inl e
                   | Inr code \<Rightarrow>
                       Inr (sub_tmpl (word_re ''NULL'') (\<lambda>m. ''nullptr'')
                              (sub_tmpl struct_ptr_re (\<lambda>m. tgroup m 1 @ ''*'') code)))))"


text \<open>\<^verbatim>\<open>std::cout\s*<<(.*?);\<close> and \<^verbatim>\<open>std::cin\s*>>(.*?);\<close>\<close>

definition cout_re :: rx where
  "cout_re = cats [Str ''std::cout'', ws, Str ''<<'', Grp 1 (LazyStar Dot), Str '';'']"

definition cin_re :: rx where
  "cin_re = cats [Str ''std::cin'', ws, Str ''>>'', Grp 1 (LazyStar Dot), Str '';'']"

text \<open>
  The loop of \<^verbatim>\<open>cout_repl\<close> over the parts of the chain; \<open>fmt\<close> and \<open>vs\<close> are the two
  lists it appends to. \<open>code\<close> is the variable of the enclosing function, which holds
  the text after the include substitution while \<^verbatim>\<open>re.sub\<close> runs.
\<close>

fun cout_parts :: "string \<Rightarrow> string list \<Rightarrow> string list \<Rightarrow> string list
    \<Rightarrow> py_error + string list \<times> string list" where
  "cout_parts code [] fmt vs = Inr (fmt, vs)"
| "cout_parts code (p # ps) fmt vs =
     (if p = ''std::endl'' then cout_parts code ps (fmt @ [[CHR 0x5C, CHR ''n'']]) vs
      else if startswith p [CHR 0x22] then
        cout_parts code ps (fmt @ [strip_chr (CHR 0x22) (strip p)]) vs
      else
        (case infer_decl_types code of
           Inl e \<Rightarrow> Inl e
         | Inr tmap \<Rightarrow>
             (let ctp = expr_ctype p tmap
              in cout_parts code ps
                   (fmt @ [fmt_for_type (case ctp of None \<Rightarrow> ''int''
                      | Some t \<Rightarrow> if t = [] then ''int'' else t)]) (vs @ [p]))))"

definition cout_repl :: "string \<Rightarrow> mobj \<Rightarrow> py_error + string" where
  "cout_repl code m =
     (case group m 1 of
        None \<Rightarrow> Inl TypeError
      | Some expr \<Rightarrow>
          (case cout_parts code (map strip (re_split0 (Str ''<<'') expr)) [] [] of
             Inl e \<Rightarrow> Inl e
           | Inr (fmt, vs) \<Rightarrow>
               (let fmt_str = concat fmt;
                    args = (if vs \<noteq> [] then '', '' @ join '', '' vs else [])
                in Inr (''printf('' @ [CHR 0x22] @ fmt_str @ [CHR 0x22] @ args @ '');''))))"

definition cin_repl :: "mobj \<Rightarrow> py_error + string" where
  "cin_repl m =
     (case group m 1 of
        None \<Rightarrow> Inl TypeError
      | Some expr \<Rightarrow>
          (let vars = map strip (re_split0 (Str ''>>'') expr);
               fmts = map (\<lambda>v. ''%d'') vars;
               fmt = join '' '' fmts;
               vaddrs = map (\<lambda>v. ''&'' @ v) vars;
               args = join '', '' vaddrs
           in Inr (''scanf('' @ [CHR 0x22] @ fmt @ [CHR 0x22] @ '', '' @ args @ '');'')))"

definition convert_cpp_to_c :: "string \<Rightarrow> py_error + string" where
  "convert_cpp_to_c code0 =
     (let code = (if re_search include_iostream code0 \<noteq> None
                  then sub_tmpl include_iostream
                         (\<lambda>m. ''#include <stdio.h>'' @ [CHR 0x0A] @ ''#include <stdlib.h>'') code0
                  else code0)
      in case sub_fn cout_re (cout_repl code) code of
           Inl e \<Rightarrow> Inl e
         | Inr code \<Rightarrow>
             (case sub_fn cin_re cin_repl code of
                Inl e \<Rightarrow> Inl e
              | Inr code \<Rightarrow>
                  (let code = sub_tmpl (word_re ''nullptr'') (\<lambda>m. ''NULL'') code;
                       code = sub_tmpl (word_re ''bool'') (\<lambda>m. ''int'') code;
                       code = sub_tmpl (word_re ''true'') (\<lambda>m. ''1'') code;
                       code = sub_tmpl (word_re ''false'') (\<lambda>m. ''0'') code
                   in Inr (convert_new_delete_to_malloc_free code))))"

section \<open>Groups that take part in every match\<close>

text \<open>
  \<open>must r\<close> is a set of groups that every match of \<open>r\<close> sets: the groups that lie on
  every path through the pattern. \<open>gdom s\<close> is the set of groups a match state holds.
\<close>

fun must :: "rx \<Rightarrow> nat set" where
  "must (Cat a b) = must a \<union> must b"
| "must (Alt a b) = must a \<inter> must b"
| "must (Grp n a) = insert n (must a)"
| "must r = {}"

definition gdom :: "mstate \<Rightarrow> nat set" where
  "gdom s = fst ` set (snd (snd s))"

section \<open>Statements and their expected translations\<close>


text \<open>
  The words of a text: the maximal runs of word characters, and every other character on
  its own. Quotes and comment marks are characters like any other. \<open>replace_word W R\<close>
  puts \<open>R\<close> in the place of every word equal to \<open>W\<close>.
\<close>

function tokens :: "string \<Rightarrow> string list" where
  "tokens [] = []"
| "tokens (c # cs) =
     (if is_word c then (c # takeWhile is_word cs) # tokens (dropWhile is_word cs)
      else [c] # tokens cs)"
  by pat_completeness auto
termination
  by (relation "measure length") (auto intro: le_imp_less_Suc length_dropWhile_le)


text \<open>
  \<open>needs c r\<close>: the character \<open>c\<close> is in every text that \<open>r\<close> matches, because a literal
  part of \<open>r\<close> that no match can skip holds it.
\<close>

fun needs :: "char \<Rightarrow> rx \<Rightarrow> bool" where
  "needs c (Str w) = (c \<in> set w)"
| "needs c (Ch k) = (k = Lit c)"
| "needs c (Plus k) = (k = Lit c)"
| "needs c (Cat a b) = (needs c a \<or> needs c b)"
| "needs c (Alt a b) = (needs c a \<and> needs c b)"
| "needs c (Grp n a) = needs c a"
| "needs c r = False"






section \<open>No call fails\<close>

text \<open>
  The model raises only where a value taken from \<^verbatim>\<open>m.group(k)\<close> is used as a string
  while it is \<open>None\<close>. Every such group is in \<open>must\<close> of its pattern, so it is never
  \<open>None\<close>.
\<close>

lemma greedy_star_groups: "s' \<in> set (greedy_star c s) \<Longrightarrow> snd (snd s') = snd (snd s)"
  by (induction c s rule: greedy_star.induct) (auto split: if_splits)

lemma lazy_star_groups: "s' \<in> set (lazy_star c s) \<Longrightarrow> snd (snd s') = snd (snd s)"
  by (induction c s rule: lazy_star.induct) (auto split: if_splits)

lemma rmatch_groups:
  "s' \<in> set (rmatch r s) \<Longrightarrow> gdom s \<union> must r \<subseteq> gdom s'"
proof (induction r arbitrary: s s')
  case (Cat a b)
  then obtain s1 where s1: "s1 \<in> set (rmatch a s)" "s' \<in> set (rmatch b s1)" by auto
  from Cat.IH(1)[OF s1(1)] Cat.IH(2)[OF s1(2)] show ?case by auto
next
  case (Alt a b)
  from Alt.prems have "s' \<in> set (rmatch a s) \<or> s' \<in> set (rmatch b s)" by auto
  then show ?case using Alt.IH(1)[of s' s] Alt.IH(2)[of s' s] by auto
next
  case (Star c)
  then have "snd (snd s') = snd (snd s)" by (simp add: greedy_star_groups)
  then show ?case by (simp add: gdom_def)
next
  case (Plus c)
  obtain p xs g where s: "s = (p, xs, g)" by (cases s)
  with Plus obtain x xs' where "s' \<in> set (greedy_star c (Some x, xs', g))"
    by (auto split: list.splits if_splits)
  then have "snd (snd s') = g" by (auto dest: greedy_star_groups)
  then show ?case by (simp add: gdom_def s)
next
  case (LazyStar c)
  then have "snd (snd s') = snd (snd s)" by (simp add: lazy_star_groups)
  then show ?case by (simp add: gdom_def)
next
  case (Opt a)
  from Opt.prems have "s' \<in> set (rmatch a s) \<or> s' = s" by auto
  then show ?case using Opt.IH[of s' s] by auto
next
  case (Grp n a)
  obtain p xs g where s: "s = (p, xs, g)" by (cases s)
  with Grp.prems obtain p' xs' g' where
    m: "(p', xs', g') \<in> set (rmatch a s)" and s': "s' = (p', xs', (n, take (length xs - length xs') xs) # g')"
    by auto
  from Grp.IH[OF m] show ?case by (auto simp: s' gdom_def)
next
  case (NotAhead a)
  then show ?case by (auto split: if_splits)
qed (cases s; auto simp: gdom_def split: list.splits option.splits if_splits)+



lemma scan_mats:
  "(\<And>p xs p' xs' g'. (p', xs', g') \<in> set (rmatch r (p, xs, []))
      \<Longrightarrow> Q (take (length xs - length xs') xs, g'))
   \<Longrightarrow> Mat m \<in> set (scan r adv p xs) \<Longrightarrow> Q m"
proof (induction r adv p xs rule: scan.induct)
  case (1 r adv p xs)
  define f where "f = filter (\<lambda>(p', xs', g'). if adv then length xs' < length xs else True) (rmatch r (p, xs, []))"
  show ?case
  proof (cases f)
    case Nil
    have eq: "scan r adv p xs = (case xs of [] \<Rightarrow> [] | x # xs' \<Rightarrow> Txt x # scan r False (Some x) xs')"
      by (subst scan.simps) (simp only: Nil[unfolded f_def] list.case)
    from "1.prems"(2) obtain x xs' where x: "xs = x # xs'" "Mat m \<in> set (scan r False (Some x) xs')"
      unfolding eq by (cases xs) auto
    show ?thesis
      by (rule "1.IH"(1)[OF Nil[unfolded f_def] x(1) "1.prems"(1) x(2)])
  next
    case (Cons s1 rest)
    obtain p' xs' g' where s1: "s1 = (p', xs', g')" by (cases s1)
    have "s1 \<in> set f" using Cons by simp
    then have mem: "(p', xs', g') \<in> set (rmatch r (p, xs, []))" by (simp add: f_def s1)
    have Qm: "Q (take (length xs - length xs') xs, g')" by (rule "1.prems"(1)[OF mem])
    have feq: "filter (\<lambda>(p', xs', g'). if adv then length xs' < length xs else True) (rmatch r (p, xs, [])) = (p', xs', g') # rest"
      using Cons by (simp add: f_def s1)
    show ?thesis
    proof (cases "length xs - length xs' = 0")
      case True
      have eq: "scan r adv p xs = (if adv then [] else Mat ([], g') # scan r True p xs)"
        by (subst scan.simps) (simp only: feq list.case prod.case Let_def True refl if_True)
      from "1.prems"(2) have na: "\<not> adv" unfolding eq by (simp split: if_splits)
      from "1.prems"(2) have c: "m = ([], g') \<or> Mat m \<in> set (scan r True p xs)"
        unfolding eq by (simp split: if_splits)
      from c show ?thesis
      proof
        assume "m = ([], g')" with Qm True show ?thesis by simp
      next
        assume a: "Mat m \<in> set (scan r True p xs)"
        show ?thesis
          by (rule "1.IH"(2)[OF feq refl refl refl True na "1.prems"(1) a])
      qed
    next
      case False
      have eq: "scan r adv p xs = Mat (take (length xs - length xs') xs, g')
          # scan r False (last_opt p (take (length xs - length xs') xs)) (drop (length xs - length xs') xs)"
        by (subst scan.simps) (simp only: feq list.case prod.case Let_def False if_False)
      from "1.prems"(2) have c: "m = (take (length xs - length xs') xs, g')
          \<or> Mat m \<in> set (scan r False (last_opt p (take (length xs - length xs') xs)) (drop (length xs - length xs') xs))"
        unfolding eq by simp
      from c show ?thesis
      proof
        assume "m = (take (length xs - length xs') xs, g')" with Qm show ?thesis by simp
      next
        assume a: "Mat m \<in> set (scan r False (last_opt p (take (length xs - length xs') xs)) (drop (length xs - length xs') xs))"
        show ?thesis
          by (rule "1.IH"(3)[OF feq refl refl refl False "1.prems"(1) a])
      qed
    qed
  qed
qed

lemma scan_must:
  "Mat m \<in> set (scan r adv p xs) \<Longrightarrow> n \<in> must r \<Longrightarrow> group m n \<noteq> None"
proof -
  assume a: "Mat m \<in> set (scan r adv p xs)" and n: "n \<in> must r"
  have "n \<in> fst ` set (snd m)"
  proof (rule scan_mats[where Q = "\<lambda>m. n \<in> fst ` set (snd m)", OF _ a])
    fix p xs p' xs' g'
    assume "(p', xs', g') \<in> set (rmatch r (p, xs, []))"
    from rmatch_groups[OF this] n show "n \<in> fst ` set (snd (take (length xs - length xs') xs, g'))"
      by (auto simp: gdom_def)
  qed
  then have "map_of (snd m) n \<noteq> None" by (simp add: map_of_eq_None_iff)
  then show ?thesis by (simp add: group_def)
qed

lemma finditer_must:
  "m \<in> set (finditer r xs) \<Longrightarrow> n \<in> must r \<Longrightarrow> group m n \<noteq> None"
proof -
  assume "m \<in> set (finditer r xs)" and n: "n \<in> must r"
  then have "Mat m \<in> set (scan r False None xs)"
    by (auto simp: finditer_def split: seg.splits)
  from scan_must[OF this n] show ?thesis .
qed

lemma re_match_must:
  "re_match r xs = Some m \<Longrightarrow> n \<in> must r \<Longrightarrow> group m n \<noteq> None"
proof -
  assume a: "re_match r xs = Some m" and n: "n \<in> must r"
  then obtain p' xs' g' rest where r: "rmatch r (None, xs, []) = (p', xs', g') # rest"
      and m: "m = (take (length xs - length xs') xs, g')"
    by (auto simp: re_match_def split: list.splits)
  have "(p', xs', g') \<in> set (rmatch r (None, xs, []))" by (simp add: r)
  from rmatch_groups[OF this] n have "n \<in> fst ` set g'" by (auto simp: gdom_def)
  then have "map_of g' n \<noteq> None" by (simp add: map_of_eq_None_iff)
  then show ?thesis by (simp add: group_def m)
qed

lemma sub_segs_ok:
  "(\<And>m st. Mat m \<in> set segs \<Longrightarrow> \<exists>r. f m st = Inr r) \<Longrightarrow> \<exists>r. sub_segs f segs st = Inr r"
proof (induction segs arbitrary: st)
  case Nil
  then show ?case by simp
next
  case (Cons sg segs)
  have ih: "\<And>st. \<exists>r. sub_segs f segs st = Inr r"
    by (rule Cons.IH) (rule Cons.prems, simp)
  show ?case
  proof (cases sg)
    case (Txt c)
    from ih[of st] show ?thesis by (auto simp: Txt)
  next
    case (Mat m)
    from Cons.prems[of m st] obtain rep st1 where f: "f m st = Inr (rep, st1)"
      by (auto simp: Mat)
    from ih[of st1] show ?thesis by (auto simp: Mat f)
  qed
qed

lemma sub_st_ok:
  "(\<And>m st. (\<forall>n\<in>must r. group m n \<noteq> None) \<Longrightarrow> \<exists>res. f m st = Inr res)
   \<Longrightarrow> \<exists>res. sub_st r f xs st = Inr res"
proof -
  assume a: "\<And>m st. (\<forall>n\<in>must r. group m n \<noteq> None) \<Longrightarrow> \<exists>res. f m st = Inr res"
  show ?thesis
    unfolding sub_st_def
  proof (rule sub_segs_ok)
    fix m st
    assume "Mat m \<in> set (scan r False None xs)"
    then have "\<forall>n\<in>must r. group m n \<noteq> None" using scan_must by blast
    then show "\<exists>res. f m st = Inr res" by (rule a)
  qed
qed

lemma sub_fn_ok:
  "(\<And>m. (\<forall>n\<in>must r. group m n \<noteq> None) \<Longrightarrow> \<exists>res. f m = Inr res)
   \<Longrightarrow> \<exists>res. sub_fn r f xs = Inr res"
proof -
  assume a: "\<And>m. (\<forall>n\<in>must r. group m n \<noteq> None) \<Longrightarrow> \<exists>res. f m = Inr res"
  have "\<exists>res. sub_st r (\<lambda>m (u::unit). case f m of Inl e \<Rightarrow> Inl e | Inr s \<Rightarrow> Inr (s, u)) xs () = Inr res"
  proof (rule sub_st_ok)
    fix m and st :: unit
    assume "\<forall>n\<in>must r. group m n \<noteq> None"
    from a[OF this] show "\<exists>res. (case f m of Inl e \<Rightarrow> Inl e | Inr s \<Rightarrow> Inr (s, st)) = Inr res"
      by auto
  qed
  then show ?thesis by (auto simp: sub_fn_def)
qed

lemma fold_err_ok:
  "(\<And>a x. x \<in> set xs \<Longrightarrow> \<exists>a'. f a x = Inr a') \<Longrightarrow> \<exists>r. fold_err f a xs = Inr r"
proof (induction xs arbitrary: a)
  case Nil
  then show ?case by simp
next
  case (Cons x xs)
  from Cons.prems[of x a] obtain a' where f: "f a x = Inr a'" by auto
  have "\<exists>r. fold_err f a' xs = Inr r" by (rule Cons.IH) (rule Cons.prems, simp)
  then show ?case by (simp add: f)
qed

lemma map_err_ok:
  "(\<And>x. x \<in> set xs \<Longrightarrow> \<exists>y. f x = Inr y) \<Longrightarrow> \<exists>ys. map_err f xs = Inr ys"
proof (induction xs)
  case Nil
  then show ?case by simp
next
  case (Cons x xs)
  from Cons.prems[of x] obtain y where f: "f x = Inr y" by auto
  have "\<exists>ys. map_err f xs = Inr ys" by (rule Cons.IH) (rule Cons.prems, simp)
  then show ?case by (auto simp: f)
qed

lemma foldl_inv:
  "P a \<Longrightarrow> (\<And>a x. P a \<Longrightarrow> x \<in> set xs \<Longrightarrow> P (f a x)) \<Longrightarrow> P (foldl f a xs)"
  by (induction xs arbitrary: a) auto

lemma must_typedef_base: "1 \<in> must typedef_base_re"
  by (simp add: typedef_base_re_def)

lemma collect_typedefs_values:
  "(k, v) \<in> set (collect_typedefs code) \<Longrightarrow> v \<noteq> None"
proof -
  define P where "P = (\<lambda>d::typedefs. \<forall>kv\<in>set d. snd kv \<noteq> None)"
  define f where "f = (\<lambda>(d::typedefs) (m::mobj). (group m 2, Some (''struct '' @ py_str (group m 1))) # d)"
  define h where "h = (\<lambda>(d::typedefs) (m::mobj). if map_of d (group m 2) = None then (group m 2, group m 1) # d else d)"
  have f: "\<And>a x. P a \<Longrightarrow> P (f a x)" by (simp add: P_def f_def)
  have 1: "P (foldl f [] (finditer typedef_struct_re code))"
    by (rule foldl_inv[where P = P]) (simp_all add: f, simp add: P_def)
  have 2: "P (foldl f (foldl f [] (finditer typedef_struct_re code)) (finditer typedef_struct_body_re code))"
    by (rule foldl_inv[where P = P]) (simp_all add: f 1)
  have 3: "P (foldl h (foldl f (foldl f [] (finditer typedef_struct_re code)) (finditer typedef_struct_body_re code))
               (finditer typedef_base_re code))"
  proof (rule foldl_inv[where P = P, OF 2])
    fix a :: typedefs and x
    assume P: "P a" and x: "x \<in> set (finditer typedef_base_re code)"
    from finditer_must[OF x must_typedef_base] have "group x 1 \<noteq> None" .
    with P show "P (h a x)" by (simp add: P_def h_def)
  qed
  have "collect_typedefs code = foldl h (foldl f (foldl f [] (finditer typedef_struct_re code)) (finditer typedef_struct_body_re code))
               (finditer typedef_base_re code)"
    by (simp add: collect_typedefs_def f_def h_def)
  with 3 have "P (collect_typedefs code)" by simp
  moreover assume "(k, v) \<in> set (collect_typedefs code)"
  ultimately show ?thesis by (auto simp: P_def)
qed

lemma must_decl: "1 \<in> must decl_re" "2 \<in> must decl_re"
  by (simp_all add: decl_re_def)

lemma decl_part_ok:
  "(\<And>k v. (k, v) \<in> set td \<Longrightarrow> v \<noteq> None) \<Longrightarrow> \<exists>r. decl_part td (Some ts) types p = Inr r"
proof -
  assume v: "\<And>k v. (k, v) \<in> set td \<Longrightarrow> v \<noteq> None"
  have "map_of td (Some ts) \<noteq> Some None"
  proof
    assume "map_of td (Some ts) = Some None"
    then have "(Some ts, None) \<in> set td" by (rule map_of_SomeD)
    with v show False by blast
  qed
  then show ?thesis
    by (cases "map_of td (Some ts)")
       (auto simp: decl_part_def Let_def split: prod.splits option.splits)
qed

lemma decl_match_ok:
  assumes v: "\<And>k v. (k, v) \<in> set td \<Longrightarrow> v \<noteq> None"
    and g1: "group m 1 \<noteq> None" and g2: "group m 2 \<noteq> None"
  shows "\<exists>r. decl_match td bt types m = Inr r"
proof -
  from g1 obtain ts where ts: "group m 1 = Some ts" by auto
  from g2 obtain rest where rest: "group m 2 = Some rest" by auto
  have "\<exists>r. fold_err (decl_part td (Some ts)) types (map strip (split_chr (CHR '','') rest)) = Inr r"
    by (rule fold_err_ok) (rule decl_part_ok, rule v)
  then obtain r where "fold_err (decl_part td (Some ts)) types (map strip (split_chr (CHR '','') rest)) = Inr r" ..
  then show ?thesis by (simp add: decl_match_def ts[unfolded One_nat_def] rest Let_def)
qed

lemma infer_decl_types_ok: "\<exists>types. infer_decl_types code = Inr types"
  unfolding infer_decl_types_def Let_def
proof (rule fold_err_ok)
  fix a x
  assume x: "x \<in> set (finditer decl_re code)"
  show "\<exists>a'. decl_match (collect_typedefs code)
          (Some ` ({''int'', ''long'', ''float'', ''double'', ''char''}
                \<union> (\<lambda>s. ''struct '' @ s) ` set (findall1 struct_name_re code))
           \<union> fst ` set (collect_typedefs code)) a x = Inr a'"
    by (rule decl_match_ok)
       (rule collect_typedefs_values, assumption, rule finditer_must[OF x must_decl(1)],
        rule finditer_must[OF x must_decl(2)])
qed

lemma cout_tokens_ok:
  "(\<And>t. t \<in> set toks \<Longrightarrow> t \<noteq> None) \<Longrightarrow> \<exists>r. cout_tokens toks out vars nl = Inr r"
proof (induction toks arbitrary: out vars nl)
  case Nil
  then show ?case by simp
next
  case (Cons t toks)
  from Cons.prems[of t] obtain tok where t: "t = Some tok" by auto
  have "\<And>out vars nl. \<exists>r. cout_tokens toks out vars nl = Inr r"
    by (rule Cons.IH) (rule Cons.prems, simp)
  then have ih: "\<And>out vars nl. \<exists>a b. cout_tokens toks out vars nl = Inr (a, b)"
    by (metis surj_pair)
  show ?case
    unfolding t cout_tokens.simps Let_def
    by (cases vars) (simp_all add: ih)
qed

lemma split_segs_some:
  "(\<And>m. Mat m \<in> set segs \<Longrightarrow> group m 1 \<noteq> None) \<Longrightarrow> t \<in> set (split_segs 1 segs cur) \<Longrightarrow> t \<noteq> None"
proof (induction segs arbitrary: cur)
  case Nil
  then show ?case by simp
next
  case (Cons sg segs)
  show ?case
  proof (cases sg)
    case (Txt c)
    with Cons.prems(2) have "t \<in> set (split_segs 1 segs (cur @ [c]))" by simp
    then show ?thesis by (rule Cons.IH[rotated]) (rule Cons.prems(1), simp)
  next
    case (Mat m)
    with Cons.prems(2) have "t = Some cur \<or> t = group m 1 \<or> t \<in> set (split_segs 1 segs [])"
      by auto
    moreover have "group m 1 \<noteq> None" by (rule Cons.prems(1)) (simp add: Mat)
    moreover have "t \<in> set (split_segs 1 segs []) \<Longrightarrow> t \<noteq> None"
      by (rule Cons.IH[rotated], assumption) (rule Cons.prems(1), simp)
    ultimately show ?thesis by auto
  qed
qed

lemma must_spec: "1 \<in> must spec_re"
  by (simp add: spec_re_def)

lemma re_split_spec_some: "t \<in> set (re_split 1 spec_re s) \<Longrightarrow> t \<noteq> None"
  unfolding re_split_def
  by (rule split_segs_some[rotated], assumption) (rule scan_must, assumption, rule must_spec)

lemma must_printf_call: "1 \<in> must printf_call_re"
  by (simp add: printf_call_re_def)

lemma must_scanf_call: "1 \<in> must scanf_call_re"
  by (simp add: scanf_call_re_def)

lemma convert_printf_to_cout_ok: "\<exists>r. convert_printf_to_cout call = Inr r"
proof (cases "re_match printf_call_re call")
  case None
  then show ?thesis by (simp add: convert_printf_to_cout_def)
next
  case (Some m)
  from re_match_must[OF Some must_printf_call] obtain a where a: "group m 1 = Some a" by auto
  show ?thesis
  proof (cases "split_printf_args a")
    case Nil
    then show ?thesis by (simp add: convert_printf_to_cout_def Some a[unfolded One_nat_def])
  next
    case (Cons fmt vars)
    have "\<exists>r. cout_tokens (re_split 1 spec_re (strip_chr (CHR 0x22) (strip fmt))) ''std::cout'' vars False = Inr r"
      by (rule cout_tokens_ok) (rule re_split_spec_some)
    then obtain out nl where "cout_tokens (re_split 1 spec_re (strip_chr (CHR 0x22) (strip fmt))) ''std::cout'' vars False = Inr (out, nl)"
      by auto
    then show ?thesis by (simp add: convert_printf_to_cout_def Some a[unfolded One_nat_def] Cons Let_def)
  qed
qed

lemma convert_scanf_to_cin_ok: "\<exists>r. convert_scanf_to_cin call types = Inr r"
proof (cases "re_match scanf_call_re call")
  case None
  then show ?thesis by (simp add: convert_scanf_to_cin_def)
next
  case (Some m)
  from re_match_must[OF Some must_scanf_call] obtain a where a: "group m 1 = Some a" by auto
  show ?thesis
    by (cases "split_printf_args a")
       (simp_all add: convert_scanf_to_cin_def Some a[unfolded One_nat_def] Let_def)
qed

lemma convert_line_ok: "\<exists>r. convert_line types ln = Inr r"
proof -
  have "\<exists>l. sub_fn printf_stmt_re (\<lambda>m. convert_printf_to_cout (fst m)) ln = Inr l"
    by (rule sub_fn_ok) (rule convert_printf_to_cout_ok)
  then obtain l where l: "sub_fn printf_stmt_re (\<lambda>m. convert_printf_to_cout (fst m)) ln = Inr l" ..
  have "\<exists>r. sub_fn scanf_stmt_re (\<lambda>m. convert_scanf_to_cin (fst m) types) l = Inr r"
    by (rule sub_fn_ok) (rule convert_scanf_to_cin_ok)
  then show ?thesis by (simp add: convert_line_def l)
qed

lemma must_calloc_cast: "3 \<in> must calloc_cast_re"
  by (simp add: calloc_cast_re_def)

lemma must_calloc_sizeof_ptr: "2 \<in> must calloc_sizeof_ptr_re"
  by (simp add: calloc_sizeof_ptr_re_def)

lemma repl_calloc_cast_ok:
  "group m 3 \<noteq> None \<Longrightarrow> \<exists>res. repl_calloc_cast names m allocs = Inr res"
  by (auto simp: repl_calloc_cast_def Let_def)

lemma repl_calloc_sizeof_ptr_ok:
  "group m 2 \<noteq> None \<Longrightarrow> \<exists>res. repl_calloc_sizeof_ptr types names m allocs = Inr res"
  by (auto simp: repl_calloc_sizeof_ptr_def Let_def)

lemma passes_ok:
  "(\<And>r f m st. (r, f) \<in> set ps \<Longrightarrow> (\<forall>n\<in>must r. group m n \<noteq> None) \<Longrightarrow> \<exists>res. f m st = Inr res)
   \<Longrightarrow> \<exists>res. passes ps code allocs = Inr res"
proof (induction ps arbitrary: code allocs)
  case Nil
  then show ?case by simp
next
  case (Cons rf ps)
  obtain r f where rf: "rf = (r, f)" by (cases rf)
  have "\<exists>res. sub_st r f code allocs = Inr res"
    by (rule sub_st_ok) (rule Cons.prems[of r f], simp_all add: rf)
  then obtain code' allocs' where s: "sub_st r f code allocs = Inr (code', allocs')" by auto
  have "\<exists>res. passes ps code' allocs' = Inr res"
    by (rule Cons.IH) (rule Cons.prems, simp_all)
  then show ?case by (simp add: rf s)
qed

lemma convert_malloc_free_to_new_delete_ok:
  "\<exists>res. convert_malloc_free_to_new_delete code types = Inr res"
proof -
  define names where "names = set (findall1 realloc_re code)"
  have "\<exists>res. passes
             [(malloc_array_re, repl_array names),
              (malloc_scalar_re, repl_scalar names),
              (malloc_sizeof_ptr_re, repl_sizeof_ptr types names),
              (lhs_type_array_re, repl_lhs_type_array names),
              (lhs_type_scalar_re, repl_lhs_type_scalar names),
              (calloc_cast_re, repl_calloc_cast names),
              (calloc_sizeof_ptr_re, repl_calloc_sizeof_ptr types names),
              (free_re, repl_free)] code [] = Inr res"
  proof (rule passes_ok)
    fix r f m and st :: allocs
    assume rf: "(r, f) \<in> set [(malloc_array_re, repl_array names),
              (malloc_scalar_re, repl_scalar names),
              (malloc_sizeof_ptr_re, repl_sizeof_ptr types names),
              (lhs_type_array_re, repl_lhs_type_array names),
              (lhs_type_scalar_re, repl_lhs_type_scalar names),
              (calloc_cast_re, repl_calloc_cast names),
              (calloc_sizeof_ptr_re, repl_calloc_sizeof_ptr types names),
              (free_re, repl_free)]"
      and g: "\<forall>n\<in>must r. group m n \<noteq> None"
    from rf consider
        "f = repl_array names" | "f = repl_scalar names" | "f = repl_sizeof_ptr types names"
      | "f = repl_lhs_type_array names" | "f = repl_lhs_type_scalar names"
      | "r = calloc_cast_re" "f = repl_calloc_cast names"
      | "r = calloc_sizeof_ptr_re" "f = repl_calloc_sizeof_ptr types names"
      | "f = repl_free"
      by auto
    then show "\<exists>res. f m st = Inr res"
    proof cases
      case 1 then show ?thesis by (simp add: repl_array_def Let_def)
    next
      case 2 then show ?thesis by (simp add: repl_scalar_def Let_def)
    next
      case 3 then show ?thesis by (simp add: repl_sizeof_ptr_def Let_def)
    next
      case 4 then show ?thesis by (simp add: repl_lhs_type_array_def Let_def)
    next
      case 5 then show ?thesis by (simp add: repl_lhs_type_scalar_def Let_def)
    next
      case 6
      with g must_calloc_cast have "group m 3 \<noteq> None" by blast
      then show ?thesis unfolding 6 by (rule repl_calloc_cast_ok)
    next
      case 7
      with g must_calloc_sizeof_ptr have "group m 2 \<noteq> None" by blast
      then show ?thesis unfolding 7 by (rule repl_calloc_sizeof_ptr_ok)
    next
      case 8 then show ?thesis by (simp add: repl_free_def Let_def)
    qed
  qed
  then show ?thesis
    by (auto simp: convert_malloc_free_to_new_delete_def names_def Let_def)
qed

lemma convert_c_to_cpp_ok: "\<exists>out. convert_c_to_cpp code = Inr out"
proof -
  define code1 where "code1 = (if re_search include_stdio code \<noteq> None
                  then sub_tmpl include_stdio (\<lambda>m. ''#include <iostream>'') code else code)"
  obtain types where t: "infer_decl_types code1 = Inr types"
    using infer_decl_types_ok by blast
  have "\<exists>ls. map_err (convert_line types) (splitlines code1) = Inr ls"
    by (rule map_err_ok) (rule convert_line_ok)
  then obtain ls where ls: "map_err (convert_line types) (splitlines code1) = Inr ls" ..
  obtain c where c: "convert_malloc_free_to_new_delete (join [CHR 0x0A] ls) types = Inr c"
    using convert_malloc_free_to_new_delete_ok by blast
  show ?thesis
    unfolding convert_c_to_cpp_def Let_def code1_def[symmetric]
    by (simp add: t ls c)
qed

lemma cout_parts_ok: "\<exists>res. cout_parts code ps fmt vs = Inr res"
proof (induction ps arbitrary: fmt vs)
  case Nil
  then show ?case by simp
next
  case (Cons p ps)
  obtain tmap where t: "infer_decl_types code = Inr tmap"
    using infer_decl_types_ok by blast
  from Cons.IH have ih: "\<And>fmt vs. \<exists>a b. cout_parts code ps fmt vs = Inr (a, b)"
    by (metis surj_pair)
  show ?case by (simp add: t Let_def ih)
qed

lemma must_cout: "1 \<in> must cout_re"
  by (simp add: cout_re_def)

lemma must_cin: "1 \<in> must cin_re"
  by (simp add: cin_re_def)

lemma cout_repl_ok: "group m 1 \<noteq> None \<Longrightarrow> \<exists>res. cout_repl code m = Inr res"
proof -
  assume "group m 1 \<noteq> None"
  then obtain expr where e: "group m (Suc 0) = Some expr" by auto
  obtain fmt vs where "cout_parts code (map strip (re_split0 (Str ''<<'') expr)) [] [] = Inr (fmt, vs)"
    using cout_parts_ok by (metis surj_pair)
  then show ?thesis by (simp add: cout_repl_def e Let_def)
qed

lemma cin_repl_ok: "group m 1 \<noteq> None \<Longrightarrow> \<exists>res. cin_repl m = Inr res"
  by (auto simp: cin_repl_def Let_def)

lemma convert_cpp_to_c_ok: "\<exists>out. convert_cpp_to_c code = Inr out"
proof -
  define code1 where "code1 = (if re_search include_iostream code \<noteq> None
                  then sub_tmpl include_iostream
                         (\<lambda>m. ''#include <stdio.h>'' @ [CHR 0x0A] @ ''#include <stdlib.h>'') code
                  else code)"
  have "\<exists>c. sub_fn cout_re (cout_repl code1) code1 = Inr c"
    by (rule sub_fn_ok) (rule cout_repl_ok, use must_cout in blast)
  then obtain c2 where c2: "sub_fn cout_re (cout_repl code1) code1 = Inr c2" ..
  have "\<exists>c. sub_fn cin_re cin_repl c2 = Inr c"
    by (rule sub_fn_ok) (rule cin_repl_ok, use must_cin in blast)
  then obtain c3 where c3: "sub_fn cin_re cin_repl c2 = Inr c3" ..
  show ?thesis
    unfolding convert_cpp_to_c_def Let_def code1_def[symmetric]
    by (simp add: c2 c3)
qed

text \<open>
  C1: both translation functions are total. For every input text each returns a string:
  no branch of the model that stands for a Python exception is taken, and every loop of
  the model is a terminating recursion.
\<close>

theorem translation_total:
  "(\<exists>out. convert_c_to_cpp code = Inr out) \<and> (\<exists>out. convert_cpp_to_c code = Inr out)"
  using convert_c_to_cpp_ok convert_cpp_to_c_ok by blast

section \<open>Matching on text with unknown parts\<close>

text \<open>
  Lemmas that run \<open>scan\<close> and \<open>rmatch\<close> over a text of which only the shape is known.
\<close>

lemma scan_nil: "rmatch r (p, [], []) = [] \<Longrightarrow> scan r False p [] = []"
  by (subst scan.simps) simp

lemma scan_txt:
  "rmatch r (p, x # xs, []) = [] \<Longrightarrow> scan r False p (x # xs) = Txt x # scan r False (Some x) xs"
  by (subst scan.simps) simp

lemma scan_txt_run:
  "(\<And>e1 c e2. e = e1 @ c # e2 \<Longrightarrow> rmatch r (last_opt p e1, c # e2 @ zs, []) = [])
   \<Longrightarrow> scan r False p (e @ zs) = map Txt e @ scan r False (last_opt p e) zs"
proof (induction e arbitrary: p)
  case Nil
  then show ?case by simp
next
  case (Cons c e)
  from Cons.prems[of "[]" c e] have "rmatch r (p, c # e @ zs, []) = []" by simp
  then have 1: "scan r False p ((c # e) @ zs) = Txt c # scan r False (Some c) (e @ zs)"
    by (simp add: scan_txt)
  have "scan r False (Some c) (e @ zs) = map Txt e @ scan r False (last_opt (Some c) e) zs"
  proof (rule Cons.IH)
    fix e1 d e2
    assume "e = e1 @ d # e2"
    then have "c # e = (c # e1) @ d # e2" by simp
    from Cons.prems[OF this] show "rmatch r (last_opt (Some c) e1, d # e2 @ zs, []) = []" by simp
  qed
  with 1 show ?case by simp
qed

lemma scan_mat:
  "rmatch r (p, xs, []) = (p', xs', g') # rest \<Longrightarrow> length xs' < length xs \<Longrightarrow>
   scan r False p xs = Mat (take (length xs - length xs') xs, g')
     # scan r False (last_opt p (take (length xs - length xs') xs)) (drop (length xs - length xs') xs)"
  by (subst scan.simps) (simp add: Let_def)

lemma last_opt_append: "last_opt p (xs @ ys) = last_opt (last_opt p xs) ys"
  by (induction xs arbitrary: p) auto

lemma last_opt_snoc [simp]: "last_opt p (xs @ [x]) = Some x"
  by (simp add: last_opt_append)

lemma strip_prefix_append [simp]: "strip_prefix w (w @ ys) = Some ys"
  by (induction w) auto

lemma strip_prefix_Some: "strip_prefix w xs = Some ys \<Longrightarrow> xs = w @ ys"
  by (induction w xs rule: strip_prefix.induct) (auto split: if_splits)

text \<open>A lazy star followed by a literal character stops at the first such character.\<close>

lemma lazy_star_until:
  "(\<And>c. c \<in> set body \<Longrightarrow> cc_ok k c \<and> c \<noteq> d) \<Longrightarrow>
   concat (map (rmatch (Str [d])) (lazy_star k (p, body @ d # rest, g)))
     = [(Some d, rest, g)] @ (if cc_ok k d then concat (map (rmatch (Str [d])) (lazy_star k (Some d, rest, g))) else [])"
proof (induction body arbitrary: p)
  case Nil
  then show ?case by simp
next
  case (Cons b body)
  have b: "cc_ok k b" "b \<noteq> d" using Cons.prems[of b] by simp_all
  have "concat (map (rmatch (Str [d])) (lazy_star k (Some b, body @ d # rest, g)))
     = [(Some d, rest, g)] @ (if cc_ok k d then concat (map (rmatch (Str [d])) (lazy_star k (Some d, rest, g))) else [])"
    by (rule Cons.IH) (rule Cons.prems, simp)
  with b show ?case by simp
qed

lemma split0_segs_txt: "split0_segs (map Txt e @ segs) cur = split0_segs segs (cur @ e)"
  by (induction e arbitrary: cur) auto

lemma scan_str_skip:
  "hd w \<notin> set e \<Longrightarrow> w \<noteq> [] \<Longrightarrow>
   scan (Str w) False q (e @ zs) = map Txt e @ scan (Str w) False (last_opt q e) zs"
proof (rule scan_txt_run)
  fix e1 c e2
  assume "hd w \<notin> set e" "w \<noteq> []" "e = e1 @ c # e2"
  then have "c \<noteq> hd w" by auto
  with \<open>w \<noteq> []\<close> show "rmatch (Str w) (last_opt q e1, c # e2 @ zs, []) = []"
    by (cases w) auto
qed

lemma scan_str_hit:
  "w \<noteq> [] \<Longrightarrow> scan (Str w) False q (w @ zs) = Mat (w, []) # scan (Str w) False (last_opt q w) zs"
proof -
  assume w: "w \<noteq> []"
  have r: "rmatch (Str w) (q, w @ zs, []) = (last_opt q w, zs, []) # []" by simp
  have "length zs < length (w @ zs)" using w by simp
  from scan_mat[OF r this] show ?thesis by simp
qed

lemma scan_str_end: "w \<noteq> [] \<Longrightarrow> scan (Str w) False q [] = []"
  by (rule scan_nil) (cases w, auto)

lemma split0_join:
  "w \<noteq> [] \<Longrightarrow> (\<And>e. e \<in> set (e0 # es) \<Longrightarrow> hd w \<notin> set e) \<Longrightarrow>
   split0_segs (scan (Str w) False q (join w (e0 # es))) cur = (cur @ e0) # es"
proof (induction es arbitrary: e0 q cur)
  case Nil
  have "scan (Str w) False q (e0 @ []) = map Txt e0 @ scan (Str w) False (last_opt q e0) []"
    by (rule scan_str_skip) (rule Nil.prems(2), simp, rule Nil.prems(1))
  then have "scan (Str w) False q e0 = map Txt e0 @ []"
    by (simp add: scan_str_end[OF Nil.prems(1)])
  then show ?case using split0_segs_txt[of e0 "[]" cur] by simp
next
  case (Cons e1 es)
  have 1: "scan (Str w) False q (e0 @ w @ join w (e1 # es))
         = map Txt e0 @ scan (Str w) False (last_opt q e0) (w @ join w (e1 # es))"
    by (rule scan_str_skip) (rule Cons.prems(2), simp, rule Cons.prems(1))
  have 2: "scan (Str w) False (last_opt q e0) (w @ join w (e1 # es))
         = Mat (w, []) # scan (Str w) False (last_opt (last_opt q e0) w) (join w (e1 # es))"
    by (rule scan_str_hit[OF Cons.prems(1)])
  have 3: "split0_segs (scan (Str w) False (last_opt (last_opt q e0) w) (join w (e1 # es))) [] = ([] @ e1) # es"
    by (rule Cons.IH[OF Cons.prems(1)]) (rule Cons.prems(2), simp)
  show ?case
    by (simp add: 1 2 3 split0_segs_txt)
qed

lemma re_split0_join:
  "w \<noteq> [] \<Longrightarrow> es \<noteq> [] \<Longrightarrow> (\<And>e. e \<in> set es \<Longrightarrow> hd w \<notin> set e) \<Longrightarrow>
   re_split0 (Str w) (join w es) = es"
proof -
  assume w: "w \<noteq> []" and es: "es \<noteq> []" and h: "\<And>e. e \<in> set es \<Longrightarrow> hd w \<notin> set e"
  from es obtain e0 es' where e: "es = e0 # es'" by (cases es) auto
  show ?thesis
    unfolding re_split0_def e
    using split0_join[OF w, of e0 es' None "[]"] h e by simp
qed










section \<open>Whole-word substitution\<close>
















section \<open>Texts that a pattern cannot match\<close>

lemma greedy_star_suffix:
  "s' \<in> set (greedy_star k s) \<Longrightarrow> \<exists>pre. fst (snd s) = pre @ fst (snd s')"
  by (induction k s rule: greedy_star.induct) (auto split: if_splits intro: exI[of _ "_ # _"])

lemma lazy_star_suffix:
  "s' \<in> set (lazy_star k s) \<Longrightarrow> \<exists>pre. fst (snd s) = pre @ fst (snd s')"
  by (induction k s rule: lazy_star.induct) (auto split: if_splits intro: exI[of _ "_ # _"])

lemma rmatch_suffix:
  "s' \<in> set (rmatch r s) \<Longrightarrow> \<exists>pre. fst (snd s) = pre @ fst (snd s')"
proof (induction r arbitrary: s s')
  case (Cat a b)
  then obtain s1 where s1: "s1 \<in> set (rmatch a s)" "s' \<in> set (rmatch b s1)" by auto
  from Cat.IH(1)[OF s1(1)] Cat.IH(2)[OF s1(2)] show ?case by auto
next
  case (Alt a b)
  from Alt.prems have "s' \<in> set (rmatch a s) \<or> s' \<in> set (rmatch b s)" by auto
  then show ?case using Alt.IH(1)[of s' s] Alt.IH(2)[of s' s] by auto
next
  case (Star k)
  then show ?case by (simp add: greedy_star_suffix)
next
  case (Plus k)
  obtain p xs g where s: "s = (p, xs, g)" by (cases s)
  with Plus obtain x xs' where x: "xs = x # xs'" "s' \<in> set (greedy_star k (Some x, xs', g))"
    by (auto split: list.splits if_splits)
  from greedy_star_suffix[OF x(2)] obtain pre where "xs' = pre @ fst (snd s')" by auto
  then have "xs = (x # pre) @ fst (snd s')" by (simp add: x)
  then show ?case unfolding s by (intro exI[of _ "x # pre"]) simp
next
  case (LazyStar k)
  then show ?case by (simp add: lazy_star_suffix)
next
  case (Opt a)
  from Opt.prems have "s' \<in> set (rmatch a s) \<or> s' = s" by auto
  then show ?case using Opt.IH[of s' s] by auto
next
  case (Grp n a)
  obtain p xs g where s: "s = (p, xs, g)" by (cases s)
  with Grp.prems obtain p' xs' g' where
    m: "(p', xs', g') \<in> set (rmatch a s)" and s': "s' = (p', xs', (n, take (length xs - length xs') xs) # g')"
    by auto
  from Grp.IH[OF m] show ?case by (auto simp: s')
next
  case (NotAhead a)
  then show ?case by (auto split: if_splits)
next
  case (Str w)
  obtain p xs g where s: "s = (p, xs, g)" by (cases s)
  with Str show ?case by (auto split: option.splits dest: strip_prefix_Some strip_prefix_Some[OF sym])
next
  case (Bref n)
  obtain p xs g where s: "s = (p, xs, g)" by (cases s)
  with Bref show ?case by (auto split: option.splits dest: strip_prefix_Some strip_prefix_Some[OF sym])
qed (cases s; auto split: list.splits option.splits if_splits)+

lemma needs_nomatch:
  "needs c r \<Longrightarrow> c \<notin> set (fst (snd s)) \<Longrightarrow> rmatch r s = []"
proof (induction r arbitrary: s)
  case (Cat a b)
  show ?case
  proof (cases "needs c a")
    case True
    from Cat.IH(1)[OF True Cat.prems(2)] show ?thesis by simp
  next
    case False
    with Cat.prems(1) have b: "needs c b" by simp
    have "rmatch b s1 = []" if "s1 \<in> set (rmatch a s)" for s1
    proof -
      from rmatch_suffix[OF that] obtain pre where "fst (snd s) = pre @ fst (snd s1)" by auto
      with Cat.prems(2) have "c \<notin> set (fst (snd s1))" by auto
      from Cat.IH(2)[OF b this] show ?thesis .
    qed
    then show ?thesis by simp
  qed
next
  case (Str w)
  obtain p xs g where s: "s = (p, xs, g)" by (cases s)
  have "strip_prefix w xs = None"
  proof (cases "strip_prefix w xs")
    case (Some ys)
    from strip_prefix_Some[OF Some] Str.prems show ?thesis by (auto simp: s)
  qed simp
  then show ?case by (simp add: s)
next
  case (Grp n a)
  obtain p xs g where s: "s = (p, xs, g)" by (cases s)
  from Grp.IH[of s] Grp.prems show ?case by (simp add: s)
qed (cases s; auto split: list.splits)+

lemma scan_needs:
  "needs c r \<Longrightarrow> c \<notin> set xs \<Longrightarrow> scan r False p xs = map Txt xs"
proof -
  assume n: "needs c r" and c: "c \<notin> set xs"
  have "scan r False p (xs @ []) = map Txt xs @ scan r False (last_opt p xs) []"
  proof (rule scan_txt_run)
    fix e1 d e2
    assume "xs = e1 @ d # e2"
    with c have "c \<notin> set (fst (snd (last_opt p e1, d # e2 @ [], []::groups)))" by auto
    from needs_nomatch[OF n this] show "rmatch r (last_opt p e1, d # e2 @ [], []) = []" .
  qed
  moreover have "scan r False (last_opt p xs) [] = []"
    by (rule scan_nil) (rule needs_nomatch[OF n], simp)
  ultimately show ?thesis by simp
qed





lemma finditer_needs: "needs c r \<Longrightarrow> c \<notin> set xs \<Longrightarrow> finditer r xs = []"
  by (simp add: finditer_def scan_needs)


lemma findall1_needs: "needs c r \<Longrightarrow> c \<notin> set xs \<Longrightarrow> findall1 r xs = []"
  by (simp add: findall1_def finditer_needs)









section \<open>Texts that only the word substitutions change\<close>



section \<open>First matches, and the four allocation statements\<close>












































section \<open>The cin statement through the whole of the C++ to C translation\<close>



























section \<open>Allocation syntax from C++ to C\<close>


text \<open>
  Three inputs outside the amended claim below: the size text ends at the first \<^verbatim>\<open>]\<close>, the
  word substitutions come before the allocation rewrite, and constructor arguments stay
  where they are.
\<close>

lemma new_rewrite_limits:
  "convert_cpp_to_c ''new int[a[i]];'' = Inr ''(int*)malloc(sizeof(int) * (a[i))];''"
  "convert_cpp_to_c ''new bool[10];'' = Inr ''(int*)malloc(sizeof(int) * (10));''"
  "convert_cpp_to_c ''new Widget(1, 2);'' = Inr ''(Widget*)malloc(sizeof(Widget))(1, 2);''"
  by code_simp+



section \<open>The realloc exclusion\<close>

text \<open>
  C2 says that a name passed to \<^verbatim>\<open>realloc\<close> keeps its malloc, calloc and free statements
  unchanged. The five allocation forms check \<open>realloc_names\<close>; \<open>repl_free\<close> does not:
  the malloc statement of \<open>p\<close> is kept, its \<^verbatim>\<open>free(p);\<close> becomes \<^verbatim>\<open>delete p;\<close>.
\<close>

theorem realloc_name_free_rewritten:
  "convert_c_to_cpp ''p = (int*)malloc(sizeof(int)); p = realloc(p, 8); free(p);''
     = Inr ''p = (int*)malloc(sizeof(int)); p = realloc(p, 8); delete p;''"
  by code_simp

section \<open>cin chains to scanf\<close>


text \<open>
  Two more inputs outside the amended claim below: the word substitutions and the allocation
  rewrite run over the \<^verbatim>\<open>scanf\<close> call after it has been made.
\<close>

lemma cin_rewrite_limits:
  "convert_cpp_to_c ''std::cin >> true;'' = Inr (''scanf('' @ DQ @ ''%d'' @ DQ @ '', &1);'')"
  "convert_cpp_to_c ''std::cin >> renew x;''
     = Inr (''scanf('' @ DQ @ ''%d'' @ DQ @ '', &re(x*)malloc(sizeof(x)));'')"
  by code_simp+



section \<open>The word substitutions of the two translations\<close>




end
